theory Spec2Isabelle
  imports Main
begin

section \<open>The shader system: data model\<close>

text \<open>
  A shallow embedding of \<^verbatim>\<open>ShaderSystem\<close> (\<^verbatim>\<open>src/unnamed/part_001\<close>).
  JavaScript objects that the system shares and mutates (shaders, programs, uniform groups)
  live in a store and are named by references; a reference that the store does not hold
  behaves like \<^verbatim>\<open>undefined\<close>: reading a property of it is a \<^verbatim>\<open>TypeError\<close>.
  Every method returns the result (or the error thrown) together with the state reached,
  so the mutations made before a throw are kept.

  Objects used as dictionaries (\<^verbatim>\<open>this.cache\<close>, \<^verbatim>\<open>glPrograms\<close>, \<^verbatim>\<open>uniformGroups\<close>,
  \<^verbatim>\<open>syncUniforms\<close>, \<^verbatim>\<open>uniformData\<close>) are maps from their own keys: a key that was never
  stored reads as \<^verbatim>\<open>undefined\<close>, and every stored value (an object, a function, a
  number compared with \<^verbatim>\<open>!==\<close>) is read as it was stored. Uniform names are
  property names that \<^verbatim>\<open>for ... in\<close> enumerates in insertion order.
\<close>

type_synonym ref = nat

datatype error = EnvironmentError | TypeError | CompileError

text \<open>A uniform value: numeric data, or a nested uniform group (as \<^verbatim>\<open>globals\<close> is).\<close>

datatype uvalue = UData "int list" | UGroup ref

text \<open>An entry of \<^verbatim>\<open>program.uniformData\<close>; the system reads \<^verbatim>\<open>type\<close> and \<^verbatim>\<open>size\<close>.\<close>

record uniform_data =
  utype :: string
  usize :: nat

text \<open>An entry of \<^verbatim>\<open>program.attributeData\<close>.\<close>

record attribute_data =
  location :: nat

text \<open>An entry of \<^verbatim>\<open>glProgram.uniformData\<close>, as \<^verbatim>\<open>generateShader\<close> builds it.\<close>

record gl_uniform =
  glu_location :: "nat option"
  glu_value :: "int list"

text \<open>
  \<^verbatim>\<open>GLProgram\<close>: the class is imported by the source and not part of it. The system
  builds it with \<^verbatim>\<open>new GLProgram(shaderProgram, uniformData)\<close>, reads \<^verbatim>\<open>program\<close> and
  \<^verbatim>\<open>uniformData\<close>, and reads and writes \<^verbatim>\<open>uniformGroups[group.id]\<close>, which starts
  with no entry.
\<close>

record gl_program =
  glp_program :: nat
  glp_uniformData :: "(string \<times> gl_uniform) list"
  uniformGroups :: "nat \<rightharpoonup> int"

text \<open>
  The program of a shader. \<^verbatim>\<open>glPrograms\<close> maps a context identity
  (\<^verbatim>\<open>renderer.CONTEXT_UID\<close>) to the \<^verbatim>\<open>GLProgram\<close> compiled for it. Each
  \<^verbatim>\<open>GLProgram\<close> is reachable through exactly one slot of one program, so it is stored
  in the slot and named by the pair (program reference, context identity).
\<close>

record shader_program =
  prog_id :: nat
  vertexSrc :: string
  fragmentSrc :: string
  attributeData :: "(string \<times> attribute_data) list"
  uniformData :: "(string \<times> uniform_data) list"
  glPrograms :: "nat \<rightharpoonup> gl_program"

type_synonym glp_ref = "ref \<times> nat"

text \<open>
  A uniform group. \<^verbatim>\<open>uniforms\<close> is the list of (name, value) members in the order in
  which \<^verbatim>\<open>for (const i in uniforms)\<close> enumerates them. \<^verbatim>\<open>group_syncUniforms\<close> is
  \<^verbatim>\<open>group.syncUniforms\<close>, keyed by \<^verbatim>\<open>program.id\<close>; a sync routine is named by a number.
\<close>

record uniform_group =
  uniforms :: "(string \<times> uvalue) list"
  static :: bool
  dirtyId :: int
  group_id :: nat
  group_syncUniforms :: "nat \<rightharpoonup> nat"

text \<open>
  Modelled from the spec: the class \<^verbatim>\<open>Shader\<close> is not in the source; the system reads
  \<^verbatim>\<open>shader.program\<close>, \<^verbatim>\<open>shader.uniformGroup\<close> and \<^verbatim>\<open>shader.uniforms\<close>. The spec has
  \<^verbatim>\<open>bind\<close> "inject the ambient global uniform group into the shader's own group under a
  reserved name", so \<^verbatim>\<open>shader.uniforms\<close> is the \<^verbatim>\<open>uniforms\<close> object of
  \<^verbatim>\<open>shader.uniformGroup\<close>.
\<close>

record shader_obj =
  sh_program :: ref
  sh_uniformGroup :: ref

record renderer_obj =
  CONTEXT_UID :: nat
  globalUniforms :: ref

text \<open>The fields of a \<^verbatim>\<open>ShaderSystem\<close> instance, as the constructor sets them.\<close>

record shader_system =
  gl :: "nat option"
  shader :: "ref option"
  program :: "ref option"
  cache :: "string \<rightharpoonup> nat"
  sys_id :: nat

text \<open>The calls that leave the system: to the GPU context and to the imported helpers.\<close>

datatype call =
    CompileProgram ref nat
  | UseProgram nat
  | GenerateUniformsSync string
  | SyncFunc nat glp_ref ref
  | ProgramSyncUniforms ref "(string \<times> uvalue) list"

record world =
  renderer :: renderer_obj
  sys :: shader_system
  shaders :: "ref \<rightharpoonup> shader_obj"
  programs :: "ref \<rightharpoonup> shader_program"
  groups :: "ref \<rightharpoonup> uniform_group"
  trace :: "call list"

text \<open>
  The imported helpers (\<^verbatim>\<open>./utils\<close>) and the GPU context are parameters.
  \<^verbatim>\<open>compileProgram\<close> returns the program handle, or nothing when it throws.
\<close>

record env =
  unsafeEvalSupported :: bool
  compileProgram :: "nat option \<Rightarrow> string \<Rightarrow> string \<Rightarrow> (string \<times> nat) list \<Rightarrow> nat option"
  getUniformLocation :: "nat \<Rightarrow> nat \<Rightarrow> string \<Rightarrow> nat option"
  defaultValue :: "string \<Rightarrow> nat \<Rightarrow> int list"
  generateUniformsSync :: "uniform_group \<Rightarrow> (string \<times> uniform_data) list \<Rightarrow> nat"

type_synonym 'a outcome = "(error + 'a) \<times> world"

section \<open>Construction, reset and context change\<close>

text \<open>\<^verbatim>\<open>systemCheck\<close>: throws when \<^verbatim>\<open>unsafeEvalSupported()\<close> is false.\<close>

definition systemCheck :: "env \<Rightarrow> error + unit" where
  "systemCheck e = (if \<not> unsafeEvalSupported e then Inl EnvironmentError else Inr ())"

text \<open>
  The constructor, given the module counter \<^verbatim>\<open>UID\<close>: the instance and the counter
  after \<^verbatim>\<open>UID++\<close>, or the error of \<^verbatim>\<open>systemCheck\<close>.
\<close>

definition ShaderSystem :: "env \<Rightarrow> nat \<Rightarrow> error + (shader_system \<times> nat)" where
  "ShaderSystem e UID =
     (case systemCheck e of
        Inl err \<Rightarrow> Inl err
      | Inr _ \<Rightarrow>
          Inr (\<lparr>gl = None, shader = None, program = None, cache = Map.empty, sys_id = UID\<rparr>,
               UID + 1))"

definition reset :: "world \<Rightarrow> world" where
  "reset w = w\<lparr>sys := (sys w)\<lparr>program := None, shader := None\<rparr>\<rparr>"

text \<open>
  \<^verbatim>\<open>contextChange(gl)\<close> with a context object \<open>g\<close>. The context identity
  \<^verbatim>\<open>renderer.CONTEXT_UID\<close> belongs to the renderer, which sets it; this method does not.
\<close>

definition contextChange :: "nat \<Rightarrow> world \<Rightarrow> world" where
  "contextChange g w = reset (w\<lparr>sys := (sys w)\<lparr>gl := Some g\<rparr>\<rparr>)"

section \<open>Signatures\<close>

text \<open>\<^verbatim>\<open>Array.prototype.join\<close> on strings.\<close>

fun join :: "string list \<Rightarrow> string \<Rightarrow> string" where
  "join [] sep = []"
| "join [x] sep = x"
| "join (x # y # ys) sep = x @ sep @ join (y # ys) sep"

text \<open>
  The loop of \<^verbatim>\<open>getSignature\<close>: for each member in enumeration order, push its name
  and, when \<^verbatim>\<open>uniformData[i]\<close> is there, its type.
\<close>

fun signature_strings :: "(string \<times> uvalue) list \<Rightarrow> (string \<times> uniform_data) list \<Rightarrow> string list" where
  "signature_strings [] ud = []"
| "signature_strings ((i, v) # us) ud =
     (case map_of ud i of
        Some d \<Rightarrow> i # utype d # signature_strings us ud
      | None \<Rightarrow> i # signature_strings us ud)"

definition getSignature :: "uniform_group \<Rightarrow> (string \<times> uniform_data) list \<Rightarrow> string" where
  "getSignature grp ud = join (signature_strings (uniforms grp) ud) ''-''"

section \<open>Binding and synchronisation\<close>

text \<open>\<^verbatim>\<open>obj[key] = v\<close> on an object seen as its list of properties in enumeration order.\<close>

fun obj_set :: "(string \<times> 'v) list \<Rightarrow> string \<Rightarrow> 'v \<Rightarrow> (string \<times> 'v) list" where
  "obj_set [] k v = [(k, v)]"
| "obj_set ((k', v') # kvs) k v =
     (if k' = k then (k, v) # kvs else (k', v') # obj_set kvs k v)"

text \<open>\<^verbatim>\<open>this.shader.program\<close>, with its reference; nothing when a step is null.\<close>

definition shader_program_of :: "world \<Rightarrow> (ref \<times> shader_program) option" where
  "shader_program_of w =
     (case shader (sys w) of
        None \<Rightarrow> None
      | Some s \<Rightarrow>
          (case shaders w s of
             None \<Rightarrow> None
           | Some sh \<Rightarrow>
               (case programs w (sh_program sh) of
                  None \<Rightarrow> None
                | Some prog \<Rightarrow> Some (sh_program sh, prog))))"

text \<open>The \<^verbatim>\<open>GLProgram\<close> object that a \<^verbatim>\<open>glp_ref\<close> names.\<close>

definition glProgram_at :: "world \<Rightarrow> glp_ref \<Rightarrow> gl_program option" where
  "glProgram_at w r =
     (case programs w (fst r) of None \<Rightarrow> None | Some prog \<Rightarrow> glPrograms prog (snd r))"

definition set_glProgram :: "glp_ref \<Rightarrow> gl_program \<Rightarrow> world \<Rightarrow> world" where
  "set_glProgram r glp w =
     (case programs w (fst r) of
        None \<Rightarrow> w
      | Some prog \<Rightarrow>
          w\<lparr>programs := (programs w)(fst r \<mapsto> prog\<lparr>glPrograms := (glPrograms prog)(snd r \<mapsto> glp)\<rparr>)\<rparr>)"

text \<open>
  \<^verbatim>\<open>getglProgram\<close>: the \<^verbatim>\<open>GLProgram\<close> of the bound shader for the current context;
  nothing when no shader is bound (\<^verbatim>\<open>null\<close>) or the slot is empty (\<^verbatim>\<open>undefined\<close>).
\<close>

definition getglProgram :: "world \<Rightarrow> glp_ref option" where
  "getglProgram w =
     (case shader_program_of w of
        None \<Rightarrow> None
      | Some (pref, prog) \<Rightarrow>
          (case glPrograms prog (CONTEXT_UID (renderer w)) of
             None \<Rightarrow> None
           | Some _ \<Rightarrow> Some (pref, CONTEXT_UID (renderer w))))"

definition log_call :: "call \<Rightarrow> world \<Rightarrow> world" where
  "log_call c w = w\<lparr>trace := trace w @ [c]\<rparr>"

text \<open>
  \<^verbatim>\<open>createSyncGroups\<close>: on a cache miss the routine is generated and stored in
  \<^verbatim>\<open>this.cache\<close> under the signature; then it is stored in \<^verbatim>\<open>group.syncUniforms\<close>
  under \<^verbatim>\<open>this.shader.program.id\<close> and returned.
\<close>

definition createSyncGroups :: "env \<Rightarrow> ref \<Rightarrow> world \<Rightarrow> nat outcome" where
  "createSyncGroups e gref w =
     (case groups w gref of
        None \<Rightarrow> (Inl TypeError, w)
      | Some grp \<Rightarrow>
          (case shader_program_of w of
             None \<Rightarrow> (Inl TypeError, w)
           | Some (pref, prog) \<Rightarrow>
               let sid = getSignature grp (uniformData prog);
                   (f, w1) =
                     (case cache (sys w) sid of
                        Some f \<Rightarrow> (f, w)
                      | None \<Rightarrow>
                          let f = generateUniformsSync e grp (uniformData prog)
                          in (f, (log_call (GenerateUniformsSync sid) w)
                                   \<lparr>sys := (sys w)\<lparr>cache := (cache (sys w))(sid \<mapsto> f)\<rparr>\<rparr>));
                   w2 = w1\<lparr>groups := (groups w1)(gref \<mapsto>
                          grp\<lparr>group_syncUniforms := (group_syncUniforms grp)(prog_id prog \<mapsto> f)\<rparr>)\<rparr>
               in (Inr f, w2)))"

text \<open>
  \<^verbatim>\<open>syncUniforms\<close>: take the routine from \<^verbatim>\<open>group.syncUniforms\<close> or from
  \<^verbatim>\<open>createSyncGroups\<close> and call it. The routine is generated code outside the source;
  its call is recorded as \<^verbatim>\<open>SyncFunc\<close>: this is the upload.
\<close>

definition syncUniforms :: "env \<Rightarrow> ref \<Rightarrow> glp_ref option \<Rightarrow> world \<Rightarrow> unit outcome" where
  "syncUniforms e gref glProgram w =
     (case groups w gref of
        None \<Rightarrow> (Inl TypeError, w)
      | Some grp \<Rightarrow>
          (case shader_program_of w of
             None \<Rightarrow> (Inl TypeError, w)
           | Some (pref, prog) \<Rightarrow>
               (case (case group_syncUniforms grp (prog_id prog) of
                        Some f \<Rightarrow> (Inr f, w)
                      | None \<Rightarrow> createSyncGroups e gref w) of
                  (Inl err, w1) \<Rightarrow> (Inl err, w1)
                | (Inr syncFunc, w1) \<Rightarrow>
                    (case glProgram of
                       None \<Rightarrow> (Inl TypeError, w1)
                     | Some r \<Rightarrow> (Inr (), log_call (SyncFunc syncFunc r gref) w1)))))"

definition syncUniformGroup :: "env \<Rightarrow> ref \<Rightarrow> world \<Rightarrow> unit outcome" where
  "syncUniformGroup e gref w =
     (case groups w gref of
        None \<Rightarrow> (Inl TypeError, w)
      | Some grp \<Rightarrow>
          (case getglProgram w of
             None \<Rightarrow> (Inl TypeError, w)
           | Some r \<Rightarrow>
               (case glProgram_at w r of
                  None \<Rightarrow> (Inl TypeError, w)
                | Some glProgram \<Rightarrow>
                    if \<not> static grp \<or> Some (dirtyId grp) \<noteq> uniformGroups glProgram (group_id grp)
                    then syncUniforms e gref (Some r)
                           (set_glProgram r
                              (glProgram\<lparr>uniformGroups :=
                                 (uniformGroups glProgram)(group_id grp \<mapsto> dirtyId grp)\<rparr>) w)
                    else (Inr (), w))))"

text \<open>
  \<^verbatim>\<open>generateShader\<close>: compile, look the uniforms up, store the new \<^verbatim>\<open>GLProgram\<close>
  under the current context identity. With \<^verbatim>\<open>this.gl\<close> null, \<^verbatim>\<open>gl.getUniformLocation\<close>
  throws as soon as the program has a uniform.
\<close>

definition generateShader :: "env \<Rightarrow> ref \<Rightarrow> world \<Rightarrow> gl_program outcome" where
  "generateShader e sref w =
     (case shaders w sref of
        None \<Rightarrow> (Inl TypeError, w)
      | Some sh \<Rightarrow>
          (case programs w (sh_program sh) of
             None \<Rightarrow> (Inl TypeError, w)
           | Some prog \<Rightarrow>
               let attribMap = map (\<lambda>(i, a). (i, location a)) (attributeData prog);
                   w1 = log_call (CompileProgram (sh_program sh) (CONTEXT_UID (renderer w))) w
               in (case compileProgram e (gl (sys w)) (vertexSrc prog) (fragmentSrc prog) attribMap of
                     None \<Rightarrow> (Inl CompileError, w1)
                   | Some shaderProgram \<Rightarrow>
                       (case (case gl (sys w) of
                                None \<Rightarrow> (if uniformData prog = [] then Some [] else None)
                              | Some g \<Rightarrow>
                                  Some (map (\<lambda>(i, d).
                                          (i, \<lparr>glu_location = getUniformLocation e g shaderProgram i,
                                               glu_value = defaultValue e (utype d) (usize d)\<rparr>))
                                        (uniformData prog))) of
                          None \<Rightarrow> (Inl TypeError, w1)
                        | Some ud \<Rightarrow>
                            let glProgram = \<lparr>glp_program = shaderProgram, glp_uniformData = ud,
                                             uniformGroups = Map.empty\<rparr>
                            in (Inr glProgram,
                                set_glProgram (sh_program sh, CONTEXT_UID (renderer w)) glProgram w1)))))"

text \<open>
  The first statement of \<^verbatim>\<open>bind\<close>: \<^verbatim>\<open>shader.uniforms.globals = this.renderer.globalUniforms\<close>.
\<close>

definition set_globals :: "shader_obj \<Rightarrow> world \<Rightarrow> unit outcome" where
  "set_globals sh w =
     (case groups w (sh_uniformGroup sh) of
        None \<Rightarrow> (Inl TypeError, w)
      | Some ug \<Rightarrow>
          (Inr (), w\<lparr>groups := (groups w)(sh_uniformGroup sh \<mapsto>
                       ug\<lparr>uniforms := obj_set (uniforms ug) ''globals''
                                        (UGroup (globalUniforms (renderer w)))\<rparr>)\<rparr>))"

text \<open>
  \<^verbatim>\<open>program.glPrograms[this.renderer.CONTEXT_UID] || this.generateShader(shader)\<close>.
\<close>

definition resolve_glProgram :: "env \<Rightarrow> ref \<Rightarrow> shader_program \<Rightarrow> world \<Rightarrow> gl_program outcome" where
  "resolve_glProgram e sref prog w =
     (case glPrograms prog (CONTEXT_UID (renderer w)) of
        Some glProgram \<Rightarrow> (Inr glProgram, w)
      | None \<Rightarrow> generateShader e sref w)"

text \<open>
  \<^verbatim>\<open>if (this.program !== program) { this.program = program; this.gl.useProgram(glProgram.program); }\<close>
  The programs are compared as objects, that is by reference.
\<close>

definition switch_program :: "ref \<Rightarrow> gl_program \<Rightarrow> world \<Rightarrow> unit outcome" where
  "switch_program pref glProgram w =
     (if program (sys w) \<noteq> Some pref
      then (let w' = w\<lparr>sys := (sys w)\<lparr>program := Some pref\<rparr>\<rparr>
            in (case gl (sys w') of
                  None \<Rightarrow> (Inl TypeError, w')
                | Some g \<Rightarrow> (Inr (), log_call (UseProgram (glp_program glProgram)) w')))
      else (Inr (), w))"

text \<open>
  \<^verbatim>\<open>bind\<close>, statement by statement. The result is the reference to the \<^verbatim>\<open>GLProgram\<close>
  object returned.
\<close>

definition bind :: "env \<Rightarrow> ref \<Rightarrow> bool \<Rightarrow> world \<Rightarrow> glp_ref outcome" where
  "bind e sref dontSync w =
     (case shaders w sref of
        None \<Rightarrow> (Inl TypeError, w)
      | Some sh \<Rightarrow>
          (case set_globals sh w of
             (Inl err, w1) \<Rightarrow> (Inl err, w1)
           | (Inr _, w1) \<Rightarrow>
               (case programs w1 (sh_program sh) of
                  None \<Rightarrow> (Inl TypeError, w1)
                | Some prog \<Rightarrow>
                    (case resolve_glProgram e sref prog w1 of
                       (Inl err, w2) \<Rightarrow> (Inl err, w2)
                     | (Inr glProgram, w2) \<Rightarrow>
                         (case switch_program (sh_program sh) glProgram
                                 (w2\<lparr>sys := (sys w2)\<lparr>shader := Some sref\<rparr>\<rparr>) of
                            (Inl err, w3) \<Rightarrow> (Inl err, w3)
                          | (Inr _, w3) \<Rightarrow>
                              (case (if \<not> dontSync
                                     then syncUniformGroup e (sh_uniformGroup sh) w3
                                     else (Inr (), w3)) of
                                 (Inl err, w4) \<Rightarrow> (Inl err, w4)
                               | (Inr _, w4) \<Rightarrow>
                                   (Inr (sh_program sh, CONTEXT_UID (renderer w)), w4)))))))"

text \<open>
  \<^verbatim>\<open>setUniforms\<close>: \<^verbatim>\<open>this.shader.program\<close>, its \<^verbatim>\<open>GLProgram\<close> for the current
  context, and the call of \<^verbatim>\<open>syncUniforms\<close> on the program, a method outside the
  source, recorded as \<^verbatim>\<open>ProgramSyncUniforms\<close>.
\<close>

definition setUniforms :: "(string \<times> uvalue) list \<Rightarrow> world \<Rightarrow> unit outcome" where
  "setUniforms us w =
     (case shader_program_of w of
        None \<Rightarrow> (Inl TypeError, w)
      | Some (pref, prog) \<Rightarrow>
          (case glPrograms prog (CONTEXT_UID (renderer w)) of
             None \<Rightarrow> (Inl TypeError, w)
           | Some glProgram \<Rightarrow> (Inr (), log_call (ProgramSyncUniforms pref us) w)))"

section \<open>Observing the calls made\<close>

text \<open>The calls that a step from \<open>w\<close> to \<open>w'\<close> added to the trace.\<close>

definition new_calls :: "world \<Rightarrow> world \<Rightarrow> call list" where
  "new_calls w w' = drop (length (trace w)) (trace w')"

fun is_UseProgram :: "call \<Rightarrow> bool" where
  "is_UseProgram (UseProgram h) = True"
| "is_UseProgram c = False"

fun is_CompileProgram :: "call \<Rightarrow> bool" where
  "is_CompileProgram (CompileProgram p u) = True"
| "is_CompileProgram c = False"

fun is_SyncFunc :: "call \<Rightarrow> bool" where
  "is_SyncFunc (SyncFunc f r g) = True"
| "is_SyncFunc c = False"

fun is_sync_call :: "call \<Rightarrow> bool" where
  "is_sync_call (SyncFunc f r g) = True"
| "is_sync_call (GenerateUniformsSync s) = True"
| "is_sync_call c = False"

section \<open>A concrete renderer\<close>

text \<open>
  Helpers and a store to run the system on: shaders 1 and 2 share program 10, shader 3
  has program 11; group 20 is static, group 21 is not; group 0 is the renderer's global
  uniform group. Nothing is bound or compiled yet.
\<close>

definition example_env :: env where
  "example_env =
     \<lparr>unsafeEvalSupported = True,
      compileProgram = (\<lambda>g vs fs am. if vs = ''bad'' then None else Some (100 + length vs)),
      getUniformLocation = (\<lambda>g h n. Some (length n)),
      defaultValue = (\<lambda>t n. replicate n 0),
      generateUniformsSync = (\<lambda>grp ud. 500 + length (uniforms grp))\<rparr>"

definition example_world :: world where
  "example_world =
     \<lparr>renderer = \<lparr>CONTEXT_UID = 1, globalUniforms = 0\<rparr>,
      sys = \<lparr>gl = Some 7, shader = None, program = None, cache = Map.empty, sys_id = 0\<rparr>,
      shaders = [1 \<mapsto> \<lparr>sh_program = 10, sh_uniformGroup = 20\<rparr>,
                 2 \<mapsto> \<lparr>sh_program = 10, sh_uniformGroup = 21\<rparr>,
                 3 \<mapsto> \<lparr>sh_program = 11, sh_uniformGroup = 21\<rparr>],
      programs = [10 \<mapsto> \<lparr>prog_id = 10, vertexSrc = ''v'', fragmentSrc = ''f'', attributeData = [],
                          uniformData = [(''uColor'', \<lparr>utype = ''vec4'', usize = 1\<rparr>)],
                          glPrograms = Map.empty\<rparr>,
                  11 \<mapsto> \<lparr>prog_id = 11, vertexSrc = ''vv'', fragmentSrc = ''ff'', attributeData = [],
                          uniformData = [], glPrograms = Map.empty\<rparr>],
      groups = [0 \<mapsto> \<lparr>uniforms = [], static = False, dirtyId = 0, group_id = 0,
                       group_syncUniforms = Map.empty\<rparr>,
                20 \<mapsto> \<lparr>uniforms = [(''uColor'', UData [1, 1, 1, 1])], static = True, dirtyId = 0,
                        group_id = 20, group_syncUniforms = Map.empty\<rparr>,
                21 \<mapsto> \<lparr>uniforms = [(''uAlpha'', UData [1])], static = False, dirtyId = 3,
                        group_id = 21, group_syncUniforms = Map.empty\<rparr>],
      trace = []\<rparr>"

text \<open>
  States reached from \<open>example_world\<close>: shader 1 bound with and without the
  synchronisation of its group; then shader 1 again, shader 3, shader 1 again; shader 2
  after shader 1; and the renderer moved to the context identity 2 after the first bind.
\<close>

definition bound_world :: world where
  "bound_world = snd (bind example_env 1 False example_world)"

definition bound_nosync_world :: world where
  "bound_nosync_world = snd (bind example_env 1 True example_world)"

definition rebound_world :: world where
  "rebound_world = snd (bind example_env 1 False bound_world)"

definition other_bound_world :: world where
  "other_bound_world = snd (bind example_env 3 False rebound_world)"

definition back_bound_world :: world where
  "back_bound_world = snd (bind example_env 1 False other_bound_world)"

definition shared_bound_world :: world where
  "shared_bound_world = snd (bind example_env 2 False bound_world)"

definition new_context_world :: world where
  "new_context_world = bound_world\<lparr>renderer := (renderer bound_world)\<lparr>CONTEXT_UID := 2\<rparr>\<rparr>"

text \<open>\<^verbatim>\<open>group.syncUniforms[id]\<close> for the group that a reference names.\<close>

definition group_routine :: "world \<Rightarrow> ref \<Rightarrow> nat \<Rightarrow> nat option" where
  "group_routine w gref pid =
     (case groups w gref of None \<Rightarrow> None | Some grp \<Rightarrow> group_syncUniforms grp pid)"

lemmas run_defs = bind_def set_globals_def resolve_glProgram_def switch_program_def
  generateShader_def syncUniformGroup_def syncUniforms_def createSyncGroups_def setUniforms_def
  getglProgram_def shader_program_of_def glProgram_at_def set_glProgram_def log_call_def
  getSignature_def new_calls_def reset_def contextChange_def group_routine_def
  example_env_def example_world_def Let_def

lemmas world_defs = bound_world_def bound_nosync_world_def rebound_world_def
  other_bound_world_def back_bound_world_def shared_bound_world_def new_context_world_def

section \<open>Facts about the steps\<close>

subsection \<open>The store and the trace\<close>

lemma new_calls_append: "trace w' = trace w @ cs \<Longrightarrow> new_calls w w' = cs"
  by (simp add: new_calls_def)

lemma log_call_frame:
  "shaders (log_call c w) = shaders w \<and> renderer (log_call c w) = renderer w
   \<and> sys (log_call c w) = sys w \<and> groups (log_call c w) = groups w
   \<and> programs (log_call c w) = programs w \<and> trace (log_call c w) = trace w @ [c]"
  by (simp add: log_call_def)

lemma set_glProgram_simps:
  "programs w (fst r) = Some prog \<Longrightarrow>
   set_glProgram r glp w = w\<lparr>programs := (programs w)(fst r \<mapsto> prog\<lparr>glPrograms := (glPrograms prog)(snd r \<mapsto> glp)\<rparr>)\<rparr>"
  by (simp add: set_glProgram_def)

lemma glProgram_at_set_glProgram:
  assumes "programs w (fst r) = Some prog"
  shows "glProgram_at (set_glProgram r glp w) r' = (if r' = r then Some glp else glProgram_at w r')"
proof -
  have "set_glProgram r glp w =
      w\<lparr>programs := (programs w)(fst r \<mapsto> prog\<lparr>glPrograms := (glPrograms prog)(snd r \<mapsto> glp)\<rparr>)\<rparr>"
    by (rule set_glProgram_simps [OF assms])
  then show ?thesis using assms
    by (cases "fst r' = fst r") (simp_all add: glProgram_at_def prod_eq_iff)
qed

lemma set_glProgram_frame:
  "shaders (set_glProgram r glp w) = shaders w \<and> renderer (set_glProgram r glp w) = renderer w
   \<and> groups (set_glProgram r glp w) = groups w \<and> sys (set_glProgram r glp w) = sys w
   \<and> trace (set_glProgram r glp w) = trace w"
  by (cases "programs w (fst r)") (simp_all add: set_glProgram_def)

lemma glProgram_at_cong: "programs w' = programs w \<Longrightarrow> glProgram_at w' r = glProgram_at w r"
  by (simp add: glProgram_at_def)

lemma shader_program_of_cong:
  "shader (sys w') = shader (sys w) \<Longrightarrow> shaders w' = shaders w \<Longrightarrow> programs w' = programs w \<Longrightarrow>
   shader_program_of w' = shader_program_of w"
  by (simp add: shader_program_of_def split: option.splits)

lemma getglProgram_SomeD:
  "getglProgram w = Some r \<Longrightarrow>
   \<exists>prog glp. shader_program_of w = Some (fst r, prog) \<and> snd r = CONTEXT_UID (renderer w)
     \<and> glPrograms prog (snd r) = Some glp \<and> programs w (fst r) = Some prog \<and> glProgram_at w r = Some glp"
  by (auto simp: getglProgram_def shader_program_of_def glProgram_at_def split: option.splits)

lemma getglProgram_cong:
  "shader (sys w') = shader (sys w) \<Longrightarrow> shaders w' = shaders w \<Longrightarrow> programs w' = programs w \<Longrightarrow>
   renderer w' = renderer w \<Longrightarrow> getglProgram w' = getglProgram w"
  using shader_program_of_cong [of w' w]
  by (simp add: getglProgram_def cong: option.case_cong prod.case_cong)

lemma getglProgram_iff:
  "getglProgram w = Some r \<longleftrightarrow>
   (\<exists>s sh. shader (sys w) = Some s \<and> shaders w s = Some sh \<and> fst r = sh_program sh
      \<and> snd r = CONTEXT_UID (renderer w) \<and> glProgram_at w r \<noteq> None)"
  by (cases r) (auto simp: getglProgram_def shader_program_of_def glProgram_at_def split: option.splits)

lemma getglProgram_set_glProgram:
  assumes "getglProgram w = Some r"
  shows "getglProgram (set_glProgram r glp w) = Some r"
proof -
  from getglProgram_SomeD [OF assms] obtain prog where pr: "programs w (fst r) = Some prog" by blast
  show ?thesis
    using assms unfolding getglProgram_iff
    by (auto simp: set_glProgram_frame glProgram_at_set_glProgram [OF pr])
qed

lemma sync_calls_no_UseProgram: "\<forall>c \<in> set cs. is_sync_call c \<Longrightarrow> filter is_UseProgram cs = []"
  by (induction cs) (auto elim: is_sync_call.elims)

lemma sync_calls_no_CompileProgram: "\<forall>c \<in> set cs. is_sync_call c \<Longrightarrow> filter is_CompileProgram cs = []"
  by (induction cs) (auto elim: is_sync_call.elims)

lemma contextChange_frame:
  "shaders (contextChange g w) = shaders w \<and> groups (contextChange g w) = groups w
   \<and> programs (contextChange g w) = programs w \<and> renderer (contextChange g w) = renderer w
   \<and> trace (contextChange g w) = trace w \<and> cache (sys (contextChange g w)) = cache (sys w)
   \<and> gl (sys (contextChange g w)) = Some g \<and> shader (sys (contextChange g w)) = None
   \<and> program (sys (contextChange g w)) = None"
  by (simp add: contextChange_def reset_def)

subsection \<open>Synchronisation\<close>

lemma createSyncGroups_miss:
  assumes "groups w g = Some grp" and "shader_program_of w = Some (p, prog)"
    and "cache (sys w) (getSignature grp (uniformData prog)) = None"
  shows "createSyncGroups e g w =
      (Inr (generateUniformsSync e grp (uniformData prog)),
       w\<lparr>trace := trace w @ [GenerateUniformsSync (getSignature grp (uniformData prog))],
         sys := (sys w)\<lparr>cache := (cache (sys w))(getSignature grp (uniformData prog) \<mapsto>
                   generateUniformsSync e grp (uniformData prog))\<rparr>,
         groups := (groups w)(g \<mapsto> grp\<lparr>group_syncUniforms :=
                   (group_syncUniforms grp)(prog_id prog \<mapsto> generateUniformsSync e grp (uniformData prog))\<rparr>)\<rparr>)"
  using assms by (simp add: createSyncGroups_def log_call_def Let_def)

lemma createSyncGroups_hit:
  assumes "groups w g = Some grp" and "shader_program_of w = Some (p, prog)"
    and "cache (sys w) (getSignature grp (uniformData prog)) = Some f"
  shows "createSyncGroups e g w =
      (Inr f, w\<lparr>groups := (groups w)(g \<mapsto> grp\<lparr>group_syncUniforms :=
                   (group_syncUniforms grp)(prog_id prog \<mapsto> f)\<rparr>)\<rparr>)"
  using assms by (simp add: createSyncGroups_def log_call_def Let_def)

lemma syncUniforms_local_hit:
  assumes "groups w g = Some grp" and "shader_program_of w = Some (p, prog)"
    and "group_syncUniforms grp (prog_id prog) = Some f"
  shows "syncUniforms e g (Some r) w = (Inr (), w\<lparr>trace := trace w @ [SyncFunc f r g]\<rparr>)"
  using assms by (simp add: syncUniforms_def log_call_def)

lemma syncUniforms_local_miss:
  assumes "groups w g = Some grp" and "shader_program_of w = Some (p, prog)"
    and "group_syncUniforms grp (prog_id prog) = None"
    and "createSyncGroups e g w = (Inr f, w1)"
  shows "syncUniforms e g (Some r) w = (Inr (), w1\<lparr>trace := trace w1 @ [SyncFunc f r g]\<rparr>)"
  using assms by (simp add: syncUniforms_def log_call_def)

lemma syncUniforms_ok:
  assumes g: "groups w g = Some grp" and sp: "shader_program_of w = Some (p, prog)"
  shows "\<exists>w1 f cs grp'. syncUniforms e g (Some r) w = (Inr (), w1)
     \<and> trace w1 = trace w @ cs @ [SyncFunc f r g]
     \<and> (\<forall>c \<in> set cs. \<not> is_SyncFunc c \<and> is_sync_call c)
     \<and> shaders w1 = shaders w \<and> renderer w1 = renderer w \<and> programs w1 = programs w
     \<and> gl (sys w1) = gl (sys w) \<and> shader (sys w1) = shader (sys w) \<and> program (sys w1) = program (sys w)
     \<and> groups w1 g = Some grp' \<and> static grp' = static grp \<and> dirtyId grp' = dirtyId grp
     \<and> group_id grp' = group_id grp \<and> uniforms grp' = uniforms grp"
proof (cases "group_syncUniforms grp (prog_id prog)")
  case (Some f)
  have "syncUniforms e g (Some r) w = (Inr (), w\<lparr>trace := trace w @ [SyncFunc f r g]\<rparr>)"
    by (rule syncUniforms_local_hit [OF g sp Some])
  then show ?thesis using g
    by (intro exI [of _ "w\<lparr>trace := trace w @ [SyncFunc f r g]\<rparr>"] exI [of _ f] exI [of _ "[]"] exI [of _ grp]) simp
next
  case None
  show ?thesis
  proof (cases "cache (sys w) (getSignature grp (uniformData prog))")
    case miss: None
    let ?f = "generateUniformsSync e grp (uniformData prog)"
    let ?sid = "getSignature grp (uniformData prog)"
    let ?grp' = "grp\<lparr>group_syncUniforms := (group_syncUniforms grp)(prog_id prog \<mapsto> ?f)\<rparr>"
    let ?w1 = "w\<lparr>trace := trace w @ [GenerateUniformsSync ?sid],
         sys := (sys w)\<lparr>cache := (cache (sys w))(?sid \<mapsto> ?f)\<rparr>,
         groups := (groups w)(g \<mapsto> ?grp')\<rparr>"
    have "syncUniforms e g (Some r) w = (Inr (), ?w1\<lparr>trace := trace ?w1 @ [SyncFunc ?f r g]\<rparr>)"
      by (rule syncUniforms_local_miss [OF g sp None createSyncGroups_miss [OF g sp miss]])
    then show ?thesis
      by (intro exI [of _ "?w1\<lparr>trace := trace ?w1 @ [SyncFunc ?f r g]\<rparr>"] exI [of _ ?f]
            exI [of _ "[GenerateUniformsSync ?sid]"] exI [of _ ?grp']) simp
  next
    case hit: (Some f)
    let ?grp' = "grp\<lparr>group_syncUniforms := (group_syncUniforms grp)(prog_id prog \<mapsto> f)\<rparr>"
    let ?w1 = "w\<lparr>groups := (groups w)(g \<mapsto> ?grp')\<rparr>"
    have "syncUniforms e g (Some r) w = (Inr (), ?w1\<lparr>trace := trace ?w1 @ [SyncFunc f r g]\<rparr>)"
      by (rule syncUniforms_local_miss [OF g sp None createSyncGroups_hit [OF g sp hit]])
    then show ?thesis
      by (intro exI [of _ "?w1\<lparr>trace := trace ?w1 @ [SyncFunc f r g]\<rparr>"] exI [of _ f]
            exI [of _ "[]"] exI [of _ ?grp']) simp
  qed
qed

lemma syncUniformGroup_ok:
  assumes g: "groups w g = Some grp" and r: "getglProgram w = Some r"
    and at: "glProgram_at w r = Some glp"
  shows "\<exists>w1 cs grp' glp' f. syncUniformGroup e g w = (Inr (), w1)
     \<and> trace w1 = trace w @ cs
     \<and> (\<forall>c \<in> set cs. is_sync_call c)
     \<and> filter is_SyncFunc cs =
          (if static grp \<and> uniformGroups glp (group_id grp) = Some (dirtyId grp) then []
           else [SyncFunc f r g])
     \<and> (static grp \<and> uniformGroups glp (group_id grp) = Some (dirtyId grp) \<longrightarrow> w1 = w)
     \<and> shaders w1 = shaders w \<and> renderer w1 = renderer w
     \<and> gl (sys w1) = gl (sys w) \<and> shader (sys w1) = shader (sys w) \<and> program (sys w1) = program (sys w)
     \<and> groups w1 g = Some grp' \<and> static grp' = static grp \<and> dirtyId grp' = dirtyId grp
     \<and> group_id grp' = group_id grp \<and> uniforms grp' = uniforms grp
     \<and> getglProgram w1 = Some r \<and> glProgram_at w1 r = Some glp'
     \<and> glp_program glp' = glp_program glp
     \<and> uniformGroups glp' (group_id grp) = Some (dirtyId grp)
     \<and> (\<forall>r'. r' \<noteq> r \<longrightarrow> glProgram_at w1 r' = glProgram_at w r')"
proof (cases "static grp \<and> uniformGroups glp (group_id grp) = Some (dirtyId grp)")
  case True
  then have "syncUniformGroup e g w = (Inr (), w)"
    using g r at by (simp add: syncUniformGroup_def)
  then show ?thesis using True g r at
    by (intro exI [of _ w] exI [of _ "[]"] exI [of _ grp] exI [of _ glp] exI [of _ 0]) simp
next
  case False

  define glp' where "glp' = glp\<lparr>uniformGroups := (uniformGroups glp)(group_id grp \<mapsto> dirtyId grp)\<rparr>"
  define w' where "w' = set_glProgram r glp' w"
  from getglProgram_SomeD [OF r] obtain prog where pr: "programs w (fst r) = Some prog" by blast
  have step: "syncUniformGroup e g w = syncUniforms e g (Some r) w'"
    using False g r at by (auto simp add: syncUniformGroup_def w'_def glp'_def)
  have g': "groups w' g = Some grp" using g by (simp add: w'_def set_glProgram_frame)
  have r': "getglProgram w' = Some r" unfolding w'_def by (rule getglProgram_set_glProgram [OF r])
  from getglProgram_SomeD [OF r'] obtain prog' where
    sp': "shader_program_of w' = Some (fst r, prog')" by blast
  from syncUniforms_ok [OF g' sp', of e r] obtain w1 f cs grp' where
    run: "syncUniforms e g (Some r) w' = (Inr (), w1)"
    and tr: "trace w1 = trace w' @ cs @ [SyncFunc f r g]"
    and cs: "\<forall>c \<in> set cs. \<not> is_SyncFunc c \<and> is_sync_call c"
    and fr: "shaders w1 = shaders w'" "renderer w1 = renderer w'" "programs w1 = programs w'"
       "gl (sys w1) = gl (sys w')" "shader (sys w1) = shader (sys w')" "program (sys w1) = program (sys w')"
    and gr: "groups w1 g = Some grp'" "static grp' = static grp" "dirtyId grp' = dirtyId grp"
       "group_id grp' = group_id grp" "uniforms grp' = uniforms grp"
    by blast
  have r1: "getglProgram w1 = Some r"
    using getglProgram_cong [OF fr(5) fr(1) fr(3) fr(2)] r' by simp
  have at1: "glProgram_at w1 r' = (if r' = r then Some glp' else glProgram_at w r')" for r'
    using glProgram_at_cong [OF fr(3), of r'] glProgram_at_set_glProgram [OF pr, of glp' r']
    by (simp add: w'_def)
  have filt: "filter is_SyncFunc (cs @ [SyncFunc f r g]) = [SyncFunc f r g]"
    using cs by (simp add: filter_empty_conv)
  have sc: "\<forall>c \<in> set (cs @ [SyncFunc f r g]). is_sync_call c" using cs by simp
  have tr': "trace w1 = trace w @ (cs @ [SyncFunc f r g])"
    using tr by (simp add: w'_def set_glProgram_frame)
  have c1: "syncUniformGroup e g w = (Inr (), w1)" using step run by simp
  have c5: "static grp \<and> uniformGroups glp (group_id grp) = Some (dirtyId grp) \<longrightarrow> w1 = w"
    using False by blast
  have c4: "filter is_SyncFunc (cs @ [SyncFunc f r g]) =
          (if static grp \<and> uniformGroups glp (group_id grp) = Some (dirtyId grp) then []
           else [SyncFunc f r g])"
    using filt False by simp
  have fr': "shaders w1 = shaders w" "renderer w1 = renderer w"
    "gl (sys w1) = gl (sys w)" "shader (sys w1) = shader (sys w)" "program (sys w1) = program (sys w)"
    using fr by (simp_all add: w'_def set_glProgram_frame)
  have a1: "glProgram_at w1 r = Some glp'" using at1 by simp
  have a2: "glp_program glp' = glp_program glp" by (simp add: glp'_def)
  have a3: "uniformGroups glp' (group_id grp) = Some (dirtyId grp)" by (simp add: glp'_def)
  have a4: "\<forall>r'. r' \<noteq> r \<longrightarrow> glProgram_at w1 r' = glProgram_at w r'" using at1 by simp
  show ?thesis
    apply (intro exI [of _ w1] exI [of _ "cs @ [SyncFunc f r g]"] exI [of _ grp'] exI [of _ glp'] exI [of _ f])
    apply (intro conjI)
    apply (fact c1 tr' sc c4 c5 fr' gr r1 a1 a2 a3 a4)+
    done
qed

lemma syncUniformGroup_any:
  assumes "syncUniformGroup e g w = (res, w')"
  shows "shaders w' = shaders w \<and> renderer w' = renderer w
     \<and> gl (sys w') = gl (sys w) \<and> shader (sys w') = shader (sys w) \<and> program (sys w') = program (sys w)
     \<and> (\<exists>cs. trace w' = trace w @ cs \<and> (\<forall>c \<in> set cs. is_sync_call c))
     \<and> (\<forall>r'. getglProgram w \<noteq> Some r' \<longrightarrow> glProgram_at w' r' = glProgram_at w r')"
proof (cases "groups w g")
  case None
  then show ?thesis using assms by (simp add: syncUniformGroup_def)
next
  case (Some grp)
  show ?thesis
  proof (cases "getglProgram w")
    case None
    then show ?thesis using assms Some by (simp add: syncUniformGroup_def)
  next
    case r: (Some r)
    from getglProgram_SomeD [OF r] obtain glp where at: "glProgram_at w r = Some glp" by blast
    from syncUniformGroup_ok [OF Some r at, of e] obtain w1 cs where
      ok: "syncUniformGroup e g w = (Inr (), w1)" "trace w1 = trace w @ cs"
        "\<forall>c \<in> set cs. is_sync_call c" "shaders w1 = shaders w" "renderer w1 = renderer w"
        "gl (sys w1) = gl (sys w)" "shader (sys w1) = shader (sys w)" "program (sys w1) = program (sys w)"
        "\<forall>r'. r' \<noteq> r \<longrightarrow> glProgram_at w1 r' = glProgram_at w r'"
      by blast
    from ok(1) assms have "w' = w1" by simp
    with ok r show ?thesis by auto
  qed
qed

subsection \<open>Binding\<close>

lemma generateShader_any:
  assumes sh: "shaders w s = Some sh" and pr: "programs w (sh_program sh) = Some prog"
    and run: "generateShader e s w = (res, w')"
  shows "trace w' = trace w @ [CompileProgram (sh_program sh) (CONTEXT_UID (renderer w))]
     \<and> shaders w' = shaders w \<and> renderer w' = renderer w \<and> sys w' = sys w \<and> groups w' = groups w
     \<and> (\<forall>r'. r' \<noteq> (sh_program sh, CONTEXT_UID (renderer w)) \<longrightarrow> glProgram_at w' r' = glProgram_at w r')
     \<and> (\<forall>glp. res = Inr glp \<longrightarrow>
           compileProgram e (gl (sys w)) (vertexSrc prog) (fragmentSrc prog)
             (map (\<lambda>(i, a). (i, location a)) (attributeData prog)) = Some (glp_program glp)
           \<and> uniformGroups glp = Map.empty
           \<and> glProgram_at w' (sh_program sh, CONTEXT_UID (renderer w)) = Some glp)"
proof -
  let ?r = "(sh_program sh, CONTEXT_UID (renderer w))"
  let ?w1 = "log_call (CompileProgram (sh_program sh) (CONTEXT_UID (renderer w))) w"
  have pr1: "programs ?w1 (fst ?r) = Some prog" using pr by (simp add: log_call_def)
  have at: "glProgram_at (set_glProgram ?r glp ?w1) r' = (if r' = ?r then Some glp else glProgram_at w r')" for glp r'
    using glProgram_at_set_glProgram [OF pr1, of glp r'] by (simp add: glProgram_at_def log_call_def)
  have fr: "shaders (set_glProgram ?r glp ?w1) = shaders w \<and> renderer (set_glProgram ?r glp ?w1) = renderer w
     \<and> sys (set_glProgram ?r glp ?w1) = sys w \<and> groups (set_glProgram ?r glp ?w1) = groups w
     \<and> trace (set_glProgram ?r glp ?w1) = trace w @ [CompileProgram (sh_program sh) (CONTEXT_UID (renderer w))]" for glp
    using set_glProgram_frame [of ?r glp ?w1] by (simp add: log_call_def)
  have at1: "glProgram_at ?w1 r' = glProgram_at w r'" for r'
    by (simp add: glProgram_at_def log_call_def)
  show ?thesis
    using run sh pr
    apply (simp add: generateShader_def Let_def split: option.splits if_splits)
    apply (auto simp: at fr at1 log_call_frame)
    done
qed

lemma set_globals_any:
  assumes "set_globals sh w = (res, w1)"
  shows "shaders w1 = shaders w \<and> renderer w1 = renderer w \<and> sys w1 = sys w
     \<and> programs w1 = programs w \<and> trace w1 = trace w
     \<and> (res = Inr () \<longrightarrow> (\<exists>ug. groups w1 (sh_uniformGroup sh) = Some ug))
     \<and> (groups w (sh_uniformGroup sh) \<noteq> None \<longrightarrow> res = Inr ())"
  using assms by (auto simp: set_globals_def split: option.splits)

lemma resolve_glProgram_any:
  assumes sh: "shaders w s = Some sh" and pr: "programs w (sh_program sh) = Some prog"
    and run: "resolve_glProgram e s prog w = (res, w')"
  shows "trace w' = trace w @ (if glPrograms prog (CONTEXT_UID (renderer w)) = None
                               then [CompileProgram (sh_program sh) (CONTEXT_UID (renderer w))] else [])
     \<and> shaders w' = shaders w \<and> renderer w' = renderer w \<and> sys w' = sys w \<and> groups w' = groups w
     \<and> (\<forall>r'. r' \<noteq> (sh_program sh, CONTEXT_UID (renderer w)) \<longrightarrow> glProgram_at w' r' = glProgram_at w r')
     \<and> (\<forall>glp. res = Inr glp \<longrightarrow>
           glProgram_at w' (sh_program sh, CONTEXT_UID (renderer w)) = Some glp
           \<and> (case glPrograms prog (CONTEXT_UID (renderer w)) of
                 Some glp0 \<Rightarrow> glp = glp0
               | None \<Rightarrow>
                   compileProgram e (gl (sys w)) (vertexSrc prog) (fragmentSrc prog)
                     (map (\<lambda>(i, a). (i, location a)) (attributeData prog)) = Some (glp_program glp)
                   \<and> uniformGroups glp = Map.empty))"
proof (cases "glPrograms prog (CONTEXT_UID (renderer w))")
  case None
  then have "generateShader e s w = (res, w')" using run by (simp add: resolve_glProgram_def)
  from generateShader_any [OF sh pr this] show ?thesis using None by simp
next
  case (Some glp0)
  then have "res = Inr glp0" "w' = w" using run by (simp_all add: resolve_glProgram_def)
  then show ?thesis using Some pr by (simp add: glProgram_at_def)
qed

lemma switch_program_any:
  assumes "switch_program p glp w = (res, w')"
  shows "shaders w' = shaders w \<and> renderer w' = renderer w \<and> groups w' = groups w
     \<and> programs w' = programs w \<and> gl (sys w') = gl (sys w) \<and> shader (sys w') = shader (sys w)
     \<and> cache (sys w') = cache (sys w)
     \<and> trace w' = trace w @ (if program (sys w) \<noteq> Some p \<and> gl (sys w) \<noteq> None
                               then [UseProgram (glp_program glp)] else [])
     \<and> (res = Inr () \<longrightarrow> program (sys w') = Some p
           \<and> (program (sys w) = Some p \<or> gl (sys w) \<noteq> None))"
  using assms
  by (auto simp: switch_program_def log_call_def Let_def split: if_splits option.splits)

lemma bind_InrE:
  assumes "bind e s d w = (Inr r, w')"
  obtains sh prog glp w1 w2 w3 where
    "shaders w s = Some sh" "set_globals sh w = (Inr (), w1)"
    "programs w1 (sh_program sh) = Some prog"
    "resolve_glProgram e s prog w1 = (Inr glp, w2)"
    "switch_program (sh_program sh) glp (w2\<lparr>sys := (sys w2)\<lparr>shader := Some s\<rparr>\<rparr>) = (Inr (), w3)"
    "(if \<not> d then syncUniformGroup e (sh_uniformGroup sh) w3 else (Inr (), w3)) = (Inr (), w')"
    "r = (sh_program sh, CONTEXT_UID (renderer w))"
  using assms
  by (auto simp: bind_def split: option.splits prod.splits sum.splits)

lemma bind_success:
  assumes run: "bind e s d w = (Inr r, w')" and sh: "shaders w s = Some sh"
    and pr: "programs w (sh_program sh) = Some prog"
  shows "\<exists>glp' cs.
     r = (sh_program sh, CONTEXT_UID (renderer w))
     \<and> glProgram_at w' r = Some glp'
     \<and> trace w' = trace w
          @ (if glPrograms prog (CONTEXT_UID (renderer w)) = None
             then [CompileProgram (sh_program sh) (CONTEXT_UID (renderer w))] else [])
          @ (if program (sys w) = Some (sh_program sh) then [] else [UseProgram (glp_program glp')])
          @ cs
     \<and> (\<forall>c \<in> set cs. is_sync_call c)
     \<and> shaders w' = shaders w \<and> renderer w' = renderer w \<and> gl (sys w') = gl (sys w)
     \<and> shader (sys w') = Some s \<and> program (sys w') = Some (sh_program sh)
     \<and> (case glPrograms prog (CONTEXT_UID (renderer w)) of
           Some glp0 \<Rightarrow> glp_program glp' = glp_program glp0
         | None \<Rightarrow>
             compileProgram e (gl (sys w)) (vertexSrc prog) (fragmentSrc prog)
               (map (\<lambda>(i, a). (i, location a)) (attributeData prog)) = Some (glp_program glp'))
     \<and> (\<forall>r'. r' \<noteq> r \<longrightarrow> glProgram_at w' r' = glProgram_at w r')"
proof -
  let ?p = "sh_program sh" and ?u = "CONTEXT_UID (renderer w)" and ?g = "sh_uniformGroup sh"
  from run sh obtain glp w1 w2 w3 prog1 where
    sg: "set_globals sh w = (Inr (), w1)"
    and pr1: "programs w1 ?p = Some prog1"
    and rs: "resolve_glProgram e s prog1 w1 = (Inr glp, w2)"
    and sw: "switch_program ?p glp (w2\<lparr>sys := (sys w2)\<lparr>shader := Some s\<rparr>\<rparr>) = (Inr (), w3)"
    and sy: "(if \<not> d then syncUniformGroup e ?g w3 else (Inr (), w3)) = (Inr (), w')"
    and r: "r = (?p, ?u)"
    by (elim bind_InrE) auto
  note f1 = set_globals_any [OF sg]
  from f1 pr pr1 have prog1: "prog1 = prog" by simp
  from f1 obtain ug where ug: "groups w1 ?g = Some ug" by blast
  have sh1: "shaders w1 s = Some sh" using f1 sh by simp
  note f2 = resolve_glProgram_any [OF sh1 pr1 rs]
  have u1: "CONTEXT_UID (renderer w1) = ?u" using f1 by simp
  let ?w2 = "w2\<lparr>sys := (sys w2)\<lparr>shader := Some s\<rparr>\<rparr>"
  note f3 = switch_program_any [OF sw]
  have at2: "glProgram_at w2 r = Some glp" using f2 r u1 by simp
  have at3: "glProgram_at w3 r' = glProgram_at w2 r'" for r'
    using f3 by (simp add: glProgram_at_def)
  have tr3: "trace w3 = trace w
          @ (if glPrograms prog ?u = None then [CompileProgram ?p ?u] else [])
          @ (if program (sys w) = Some ?p then [] else [UseProgram (glp_program glp)])"
    using f1 f2 f3 prog1 u1 by auto
  have fr3: "shaders w3 = shaders w" "renderer w3 = renderer w" "gl (sys w3) = gl (sys w)"
    "shader (sys w3) = Some s" "program (sys w3) = Some ?p" "groups w3 ?g = Some ug"
    using f1 f2 f3 ug by simp_all
  have hd: "(case glPrograms prog ?u of
           Some glp0 \<Rightarrow> glp_program glp = glp_program glp0
         | None \<Rightarrow>
             compileProgram e (gl (sys w)) (vertexSrc prog) (fragmentSrc prog)
               (map (\<lambda>(i, a). (i, location a)) (attributeData prog)) = Some (glp_program glp))"
    using f2 f1 prog1 u1 by (auto split: option.splits)
  have oth3: "\<forall>r'. r' \<noteq> r \<longrightarrow> glProgram_at w3 r' = glProgram_at w r'"
    using f2 f1 r u1 at3 by (simp add: glProgram_at_def)
  show ?thesis
  proof (cases d)
    case True
    then have w': "w' = w3" using sy by simp
    show ?thesis
      apply (intro exI [of _ glp] exI [of _ "[]"])
      using r at2 at3 tr3 fr3 hd oth3 by (simp add: w')
  next
    case False
    then have sy': "syncUniformGroup e ?g w3 = (Inr (), w')" using sy by simp
    have gp: "getglProgram w3 = Some r"
      unfolding getglProgram_iff using fr3 sh r at2 at3 by simp
    have at3r: "glProgram_at w3 r = Some glp" using at2 at3 by simp
    from syncUniformGroup_ok [OF fr3(6) gp at3r, of e] sy' obtain cs glp' where
      tr: "trace w' = trace w3 @ cs" and cs: "\<forall>c \<in> set cs. is_sync_call c"
      and fr: "shaders w' = shaders w3" "renderer w' = renderer w3" "gl (sys w') = gl (sys w3)"
        "shader (sys w') = shader (sys w3)" "program (sys w') = program (sys w3)"
      and at: "glProgram_at w' r = Some glp'" "glp_program glp' = glp_program glp"
      and oth: "\<forall>r'. r' \<noteq> r \<longrightarrow> glProgram_at w' r' = glProgram_at w3 r'"
      by auto
    show ?thesis
      apply (intro exI [of _ glp'] exI [of _ cs])
      using r at tr cs fr tr3 fr3 hd oth oth3 by (simp split: option.splits)
  qed
qed

lemma bind_successE:
  assumes run: "bind e s d w = (Inr r, w')" and sh: "shaders w s = Some sh"
    and pr: "programs w (sh_program sh) = Some prog"
  obtains glp' cs where
    "r = (sh_program sh, CONTEXT_UID (renderer w))"
    "glProgram_at w' r = Some glp'"
    "trace w' = trace w
          @ (if glPrograms prog (CONTEXT_UID (renderer w)) = None
             then [CompileProgram (sh_program sh) (CONTEXT_UID (renderer w))] else [])
          @ (if program (sys w) = Some (sh_program sh) then [] else [UseProgram (glp_program glp')])
          @ cs"
    "\<forall>c \<in> set cs. is_sync_call c"
    "shaders w' = shaders w" "renderer w' = renderer w" "gl (sys w') = gl (sys w)"
    "shader (sys w') = Some s" "program (sys w') = Some (sh_program sh)"
    "(case glPrograms prog (CONTEXT_UID (renderer w)) of
           Some glp0 \<Rightarrow> glp_program glp' = glp_program glp0
         | None \<Rightarrow>
             compileProgram e (gl (sys w)) (vertexSrc prog) (fragmentSrc prog)
               (map (\<lambda>(i, a). (i, location a)) (attributeData prog)) = Some (glp_program glp'))"
    "\<forall>r'. r' \<noteq> r \<longrightarrow> glProgram_at w' r' = glProgram_at w r'"
proof -
  from bind_success [OF run sh pr] obtain glp' cs where
    *: "r = (sh_program sh, CONTEXT_UID (renderer w))
     \<and> glProgram_at w' r = Some glp'
     \<and> trace w' = trace w
          @ (if glPrograms prog (CONTEXT_UID (renderer w)) = None
             then [CompileProgram (sh_program sh) (CONTEXT_UID (renderer w))] else [])
          @ (if program (sys w) = Some (sh_program sh) then [] else [UseProgram (glp_program glp')])
          @ cs
     \<and> (\<forall>c \<in> set cs. is_sync_call c)
     \<and> shaders w' = shaders w \<and> renderer w' = renderer w \<and> gl (sys w') = gl (sys w)
     \<and> shader (sys w') = Some s \<and> program (sys w') = Some (sh_program sh)
     \<and> (case glPrograms prog (CONTEXT_UID (renderer w)) of
           Some glp0 \<Rightarrow> glp_program glp' = glp_program glp0
         | None \<Rightarrow>
             compileProgram e (gl (sys w)) (vertexSrc prog) (fragmentSrc prog)
               (map (\<lambda>(i, a). (i, location a)) (attributeData prog)) = Some (glp_program glp'))
     \<and> (\<forall>r'. r' \<noteq> r \<longrightarrow> glProgram_at w' r' = glProgram_at w r')"
    by (elim exE)
  show thesis
    by (rule that [of glp' cs]; insert *; elim conjE; assumption)
qed

lemma bind_program_resolves:
  assumes run: "bind e s d w = (Inr r, w')" and sh: "shaders w s = Some sh"
  shows "\<exists>prog. programs w (sh_program sh) = Some prog"
  using run sh by (elim bind_InrE) (auto dest: set_globals_any)

lemma bind_useProgram_calls:
  assumes run: "bind e s d w = (Inr r, w')" and sh: "shaders w s = Some sh"
  shows "\<exists>h. filter is_UseProgram (new_calls w w')
            = (if program (sys w) = Some (sh_program sh) then [] else [UseProgram h])"
proof -
  from bind_program_resolves [OF run sh] obtain prog where
    pr: "programs w (sh_program sh) = Some prog" by blast
  from run sh pr show ?thesis
  proof (rule bind_successE)
    fix glp' :: gl_program and cs :: "call list"
    assume tr: "trace w' = trace w
          @ (if glPrograms prog (CONTEXT_UID (renderer w)) = None
             then [CompileProgram (sh_program sh) (CONTEXT_UID (renderer w))] else [])
          @ (if program (sys w) = Some (sh_program sh) then [] else [UseProgram (glp_program glp')])
          @ cs"
      and cs: "\<forall>c \<in> set cs. is_sync_call c"
    have "filter is_UseProgram (new_calls w w')
        = (if program (sys w) = Some (sh_program sh) then [] else [UseProgram (glp_program glp')])"
      using sync_calls_no_UseProgram [OF cs] by (simp add: new_calls_append [OF tr])
    then show ?thesis by blast
  qed
qed

lemma bind_tracks:
  assumes run: "bind e s d w = (Inr r, w')" and sh: "shaders w s = Some sh"
  shows "shaders w' = shaders w \<and> program (sys w') = Some (sh_program sh) \<and> renderer w' = renderer w"
proof -
  from bind_program_resolves [OF run sh] obtain prog where
    pr: "programs w (sh_program sh) = Some prog" by blast
  from run sh pr show ?thesis
  proof (rule bind_successE)
    fix glp' :: gl_program and cs :: "call list"
    assume "shaders w' = shaders w" "renderer w' = renderer w" "program (sys w') = Some (sh_program sh)"
    then show ?thesis by simp
  qed
qed

lemma bind_compile_any:
  assumes sh: "shaders w s = Some sh" and ug: "groups w (sh_uniformGroup sh) = Some ug"
    and pr: "programs w (sh_program sh) = Some prog"
    and run: "bind e s d w = (res, w')"
  shows "filter is_CompileProgram (new_calls w w')
       = (if glPrograms prog (CONTEXT_UID (renderer w)) = None
          then [CompileProgram (sh_program sh) (CONTEXT_UID (renderer w))] else [])
     \<and> (\<forall>r'. r' \<noteq> (sh_program sh, CONTEXT_UID (renderer w)) \<longrightarrow>
            glProgram_at w' r' = glProgram_at w r')"
proof -
  let ?p = "sh_program sh" and ?u = "CONTEXT_UID (renderer w)" and ?g = "sh_uniformGroup sh"
  let ?comp = "if glPrograms prog ?u = None then [CompileProgram ?p ?u] else []"
  obtain res1 w1 where sg0: "set_globals sh w = (res1, w1)" by (cases "set_globals sh w")
  note f1 = set_globals_any [OF sg0]
  from f1 ug have res1: "res1 = Inr ()" by simp
  have pr1: "programs w1 ?p = Some prog" and sh1: "shaders w1 s = Some sh"
    and u1: "CONTEXT_UID (renderer w1) = ?u"
    using f1 pr sh by simp_all
  obtain resA w2 where rs: "resolve_glProgram e s prog w1 = (resA, w2)"
    by (cases "resolve_glProgram e s prog w1")
  note f2 = resolve_glProgram_any [OF sh1 pr1 rs]
  have tr2: "trace w2 = trace w @ ?comp" using f1 f2 u1 by simp
  have oth2: "\<forall>r'. r' \<noteq> (?p, ?u) \<longrightarrow> glProgram_at w2 r' = glProgram_at w r'"
    using f1 f2 u1 by (simp add: glProgram_at_def)
  show ?thesis
  proof (cases resA)
    case (Inl err)
    then have "w' = w2" using run sh sg0 res1 pr1 rs by (simp add: bind_def)
    then show ?thesis using tr2 oth2 by (simp add: new_calls_def)
  next
    case (Inr glp)
    let ?w2 = "w2\<lparr>sys := (sys w2)\<lparr>shader := Some s\<rparr>\<rparr>"
    obtain resB w3 where sw: "switch_program ?p glp ?w2 = (resB, w3)"
      by (cases "switch_program ?p glp ?w2")
    note f3 = switch_program_any [OF sw]
    obtain us where tr3: "trace w3 = trace w @ ?comp @ us" and us: "filter is_CompileProgram us = []"
      using f3 tr2 by (cases "program (sys ?w2) \<noteq> Some ?p \<and> gl (sys ?w2) \<noteq> None") auto
    have oth3: "\<forall>r'. r' \<noteq> (?p, ?u) \<longrightarrow> glProgram_at w3 r' = glProgram_at w r'"
      using f3 oth2 by (simp add: glProgram_at_def)
    show ?thesis
    proof (cases resB)
      case (Inl err)
      then have "w' = w3" using run sh sg0 res1 pr1 rs Inr sw by (simp add: bind_def)
      then show ?thesis using tr3 us oth3 by (simp add: new_calls_def)
    next
      case inrB: (Inr u)
      obtain resC w4 where sy: "(if \<not> d then syncUniformGroup e ?g w3 else (Inr (), w3)) = (resC, w4)"
        by (cases "if \<not> d then syncUniformGroup e ?g w3 else (Inr (), w3)")
      have w': "w' = w4"
        using run sh sg0 res1 pr1 rs Inr sw inrB sy by (cases resC) (simp_all add: bind_def)
      have "(\<exists>cs. trace w4 = trace w3 @ cs \<and> (\<forall>c \<in> set cs. is_sync_call c))
         \<and> (\<forall>r'. r' \<noteq> (?p, ?u) \<longrightarrow> glProgram_at w4 r' = glProgram_at w3 r')"
      proof (cases d)
        case True
        then show ?thesis using sy by auto
      next
        case False
        then have sy': "syncUniformGroup e ?g w3 = (resC, w4)" using sy by simp
        note f4 = syncUniformGroup_any [OF sy']
        have "getglProgram w3 \<noteq> Some r'" if "r' \<noteq> (?p, ?u)" for r'
          using that f3 f2 f1 sh unfolding getglProgram_iff by (auto simp: prod_eq_iff)
        then show ?thesis using f4 by simp
      qed
      then obtain cs where tr4: "trace w4 = trace w3 @ cs" and cs: "\<forall>c \<in> set cs. is_sync_call c"
        and oth4: "\<forall>r'. r' \<noteq> (?p, ?u) \<longrightarrow> glProgram_at w4 r' = glProgram_at w3 r'"
        by blast
      show ?thesis
        using tr3 tr4 us sync_calls_no_CompileProgram [OF cs] oth3 oth4
        by (simp add: w' new_calls_def)
    qed
  qed
qed

section \<open>Synchronising a static group twice\<close>

text \<open>
  C1. Let a shader be bound and compiled for the current context, and let a static group
  not yet be synchronised for its \<^verbatim>\<open>dirtyId\<close> against the bound \<^verbatim>\<open>GLProgram\<close>: the
  value in \<^verbatim>\<open>glProgram.uniformGroups[group.id]\<close> (none at first) is not the group's
  \<^verbatim>\<open>dirtyId\<close>. Then \<^verbatim>\<open>syncUniformGroup\<close> called twice with nothing in between returns
  both times and runs the sync routine exactly once, in the first call, on this group and
  this \<^verbatim>\<open>GLProgram\<close>; the second call makes no call at all and leaves the state as it is.
\<close>

theorem syncUniformGroup_static_twice:
  assumes g: "groups w g = Some grp" and st: "static grp"
    and r: "getglProgram w = Some r" and at: "glProgram_at w r = Some glp"
    and fresh: "uniformGroups glp (group_id grp) \<noteq> Some (dirtyId grp)"
    and c1: "syncUniformGroup e g w = (res1, w1)"
    and c2: "syncUniformGroup e g w1 = (res2, w2)"
  shows "res1 = Inr () \<and> res2 = Inr () \<and> w2 = w1
     \<and> new_calls w1 w2 = []
     \<and> (\<exists>f. filter is_SyncFunc (new_calls w w1) = [SyncFunc f r g])
     \<and> length (filter is_SyncFunc (new_calls w w1 @ new_calls w1 w2)) = 1"
proof -
  from syncUniformGroup_ok [OF g r at, of e] c1 obtain cs grp' glp' f where
    res1: "res1 = Inr ()" and tr: "trace w1 = trace w @ cs"
    and filt: "filter is_SyncFunc cs =
          (if static grp \<and> uniformGroups glp (group_id grp) = Some (dirtyId grp) then []
           else [SyncFunc f r g])"
    and g1: "groups w1 g = Some grp'" "static grp' = static grp" "dirtyId grp' = dirtyId grp"
      "group_id grp' = group_id grp"
    and r1: "getglProgram w1 = Some r" and at1: "glProgram_at w1 r = Some glp'"
    and rec: "uniformGroups glp' (group_id grp) = Some (dirtyId grp)"
    by auto
  have "syncUniformGroup e g w1 = (Inr (), w1)"
    using g1 st r1 at1 rec by (simp add: syncUniformGroup_def)
  with c2 have res2: "res2 = Inr ()" "w2 = w1" by simp_all
  have n1: "new_calls w w1 = cs" using tr by (simp add: new_calls_append)
  have n2: "new_calls w1 w2 = []" using res2 by (simp add: new_calls_def)
  have up: "filter is_SyncFunc cs = [SyncFunc f r g]" using filt fresh by simp
  show ?thesis using res1 res2 n1 n2 up by simp
qed

theorem syncUniformGroup_static_twice_witness:
  "fst (bind example_env 1 True example_world) = Inr (10, 1)
   \<and> fst (syncUniformGroup example_env 20 bound_nosync_world) = Inr ()
   \<and> fst (syncUniformGroup example_env 20 (snd (syncUniformGroup example_env 20 bound_nosync_world)))
       = Inr ()
   \<and> filter is_SyncFunc
        (new_calls bound_nosync_world (snd (syncUniformGroup example_env 20 bound_nosync_world)))
       = [SyncFunc 502 (10, 1) 20]
   \<and> new_calls (snd (syncUniformGroup example_env 20 bound_nosync_world))
        (snd (syncUniformGroup example_env 20 (snd (syncUniformGroup example_env 20 bound_nosync_world))))
       = []"
proof -
  let ?w = bound_nosync_world
  let ?grp = "\<lparr>uniforms = [(''uColor'', UData [1, 1, 1, 1]), (''globals'', UGroup 0)], static = True,
               dirtyId = 0, group_id = 20, group_syncUniforms = Map.empty\<rparr>"
  let ?glp = "\<lparr>glp_program = 101,
               glp_uniformData = [(''uColor'', \<lparr>glu_location = Some 6, glu_value = [0]\<rparr>)],
               uniformGroups = Map.empty\<rparr>"
  have g: "groups ?w 20 = Some ?grp" by (simp add: world_defs run_defs)
  have st: "static ?grp" by simp
  have r: "getglProgram ?w = Some (10, 1)" by (simp add: world_defs run_defs)
  have at: "glProgram_at ?w (10, 1) = Some ?glp" by (simp add: world_defs run_defs)
  have fresh: "uniformGroups ?glp (group_id ?grp) \<noteq> Some (dirtyId ?grp)" by simp
  have b: "fst (bind example_env 1 True example_world) = Inr (10, 1)" by (simp add: run_defs)
  show ?thesis
    using b syncUniformGroup_static_twice [OF g st r at fresh surjective_pairing surjective_pairing,
        of example_env]
    by (simp add: world_defs run_defs)
qed

section \<open>Signatures depend on names and types only\<close>

lemma signature_strings_cong:
  "map fst us1 = map fst us2 \<Longrightarrow>
   (\<forall>n \<in> set (map fst us1). map_option utype (map_of ud1 n) = map_option utype (map_of ud2 n)) \<Longrightarrow>
   signature_strings us1 ud1 = signature_strings us2 ud2"
proof (induction us1 arbitrary: us2)
  case Nil
  then show ?case by simp
next
  case (Cons m us1)
  obtain i v where m: "m = (i, v)" by (cases m)
  from Cons.prems(1) obtain m' us2' where us2: "us2 = m' # us2'" by (cases us2) auto
  obtain i' v' where m': "m' = (i', v')" by (cases m')
  from Cons.prems(1) have names: "i' = i" "map fst us1 = map fst us2'"
    by (simp_all add: m m' us2)
  from Cons.prems(2) have ty: "map_option utype (map_of ud1 i) = map_option utype (map_of ud2 i)"
    by (simp add: m)
  from Cons.prems(2) have rest:
    "\<forall>n \<in> set (map fst us1). map_option utype (map_of ud1 n) = map_option utype (map_of ud2 n)"
    by simp
  have ih: "signature_strings us1 ud1 = signature_strings us2' ud2"
    by (rule Cons.IH [OF names(2) rest])
  show ?case
    using ty ih
    by (cases "map_of ud1 i"; cases "map_of ud2 i") (simp_all add: m m' us2 names(1))
qed

text \<open>
  C2. Two uniform groups whose members have the same names in the same enumeration order,
  and whose members have the same introspected types in the \<^verbatim>\<open>uniformData\<close> consulted
  (absent for both or the same type for both), get the same signature, whatever the
  members' values are.
\<close>

theorem getSignature_names_types:
  assumes "map fst (uniforms g1) = map fst (uniforms g2)"
    and "\<forall>n \<in> set (map fst (uniforms g1)).
           map_option utype (map_of ud1 n) = map_option utype (map_of ud2 n)"
  shows "getSignature g1 ud1 = getSignature g2 ud2"
  unfolding getSignature_def
  using signature_strings_cong [OF assms] by simp

theorem getSignature_names_types_witness:
  "getSignature
     \<lparr>uniforms = [(''uColor'', UData [1, 0, 0, 1]), (''uAlpha'', UData [1])],
      static = False, dirtyId = 0, group_id = 1, group_syncUniforms = Map.empty\<rparr>
     [(''uColor'', \<lparr>utype = ''vec4'', usize = 1\<rparr>)]
   = getSignature
     \<lparr>uniforms = [(''uColor'', UData [0, 0, 0, 0]), (''uAlpha'', UGroup 7)],
      static = True, dirtyId = 5, group_id = 2, group_syncUniforms = Map.empty\<rparr>
     [(''uColor'', \<lparr>utype = ''vec4'', usize = 4\<rparr>), (''uOther'', \<lparr>utype = ''float'', usize = 1\<rparr>)]"
  by (rule getSignature_names_types) simp_all

section \<open>Switching the program\<close>

text \<open>
  C3. A \<^verbatim>\<open>bind\<close> that returns issues \<^verbatim>\<open>gl.useProgram\<close> exactly when the program of
  the shader is not the program tracked in \<^verbatim>\<open>this.program\<close>, and then once (last
  conjunct, for every call in every state). So for shaders \<open>a\<close> and \<open>b\<close> with different
  programs, when the program of \<open>a\<close> is not the tracked one at the start, the calls
  \<^verbatim>\<open>bind(a), bind(a), bind(b), bind(a)\<close> switch on the first, third and fourth call and
  not on the second.
\<close>

theorem bind_useProgram_on_change:
  assumes a: "shaders w0 a = Some sa" and b: "shaders w0 b = Some sb"
    and ab: "sh_program sa \<noteq> sh_program sb"
    and init: "program (sys w0) \<noteq> Some (sh_program sa)"
    and b1: "bind e a d1 w0 = (Inr r1, w1)" and b2: "bind e a d2 w1 = (Inr r2, w2)"
    and b3: "bind e b d3 w2 = (Inr r3, w3)" and b4: "bind e a d4 w3 = (Inr r4, w4)"
  shows "(\<exists>h. filter is_UseProgram (new_calls w0 w1) = [UseProgram h])
     \<and> filter is_UseProgram (new_calls w1 w2) = []
     \<and> (\<exists>h. filter is_UseProgram (new_calls w2 w3) = [UseProgram h])
     \<and> (\<exists>h. filter is_UseProgram (new_calls w3 w4) = [UseProgram h])
     \<and> (\<forall>s d w r w' sh. bind e s d w = (Inr r, w') \<and> shaders w s = Some sh \<longrightarrow>
           (filter is_UseProgram (new_calls w w') \<noteq> []) = (program (sys w) \<noteq> Some (sh_program sh))
           \<and> length (filter is_UseProgram (new_calls w w')) \<le> 1)"
proof -
  note t1 = bind_tracks [OF b1 a]
  have a1: "shaders w1 a = Some sa" and b1': "shaders w1 b = Some sb" using t1 a b by simp_all
  note t2 = bind_tracks [OF b2 a1]
  have a2: "shaders w2 a = Some sa" and b2': "shaders w2 b = Some sb" using t2 a1 b1' by simp_all
  note t3 = bind_tracks [OF b3 b2']
  have a3: "shaders w3 a = Some sa" using t3 a2 by simp
  have c1: "\<exists>h. filter is_UseProgram (new_calls w0 w1) = [UseProgram h]"
    using bind_useProgram_calls [OF b1 a] init by simp
  have c2: "filter is_UseProgram (new_calls w1 w2) = []"
    using bind_useProgram_calls [OF b2 a1] t1 by simp
  have c3: "\<exists>h. filter is_UseProgram (new_calls w2 w3) = [UseProgram h]"
    using bind_useProgram_calls [OF b3 b2'] t2 ab by simp
  have c4: "\<exists>h. filter is_UseProgram (new_calls w3 w4) = [UseProgram h]"
    using bind_useProgram_calls [OF b4 a3] t3 ab by simp
  have gen: "(filter is_UseProgram (new_calls w w') \<noteq> []) = (program (sys w) \<noteq> Some (sh_program sh))
           \<and> length (filter is_UseProgram (new_calls w w')) \<le> 1"
    if "bind e s d w = (Inr r, w')" "shaders w s = Some sh" for s d w r w' sh
    using bind_useProgram_calls [OF that] by (auto split: if_splits)
  show ?thesis using c1 c2 c3 c4 gen by blast
qed

theorem bind_useProgram_on_change_witness:
  "filter is_UseProgram (new_calls example_world bound_world) = [UseProgram 101]
   \<and> filter is_UseProgram (new_calls bound_world rebound_world) = []
   \<and> filter is_UseProgram (new_calls rebound_world other_bound_world) = [UseProgram 102]
   \<and> filter is_UseProgram (new_calls other_bound_world back_bound_world) = [UseProgram 101]"
proof -
  let ?a = "\<lparr>sh_program = 10, sh_uniformGroup = 20\<rparr>"
  let ?b = "\<lparr>sh_program = 11, sh_uniformGroup = 21\<rparr>"
  have a: "shaders example_world 1 = Some ?a" by (simp add: example_world_def)
  have b: "shaders example_world 3 = Some ?b" by (simp add: example_world_def)
  have ab: "sh_program ?a \<noteq> sh_program ?b" by simp
  have init: "program (sys example_world) \<noteq> Some (sh_program ?a)" by (simp add: example_world_def)
  have b1: "bind example_env 1 False example_world = (Inr (10, 1), bound_world)"
    by (simp add: prod_eq_iff world_defs run_defs)
  have b2: "bind example_env 1 False bound_world = (Inr (10, 1), rebound_world)"
    by (simp add: prod_eq_iff world_defs run_defs)
  have b3: "bind example_env 3 False rebound_world = (Inr (11, 1), other_bound_world)"
    by (simp add: prod_eq_iff world_defs run_defs)
  have b4: "bind example_env 1 False other_bound_world = (Inr (10, 1), back_bound_world)"
    by (simp add: prod_eq_iff world_defs run_defs)
  show ?thesis
    using bind_useProgram_on_change [OF a b ab init b1 b2 b3 b4]
    by (simp add: world_defs run_defs)
qed

text \<open>
  C4. Two shaders with the same program, bound one after the other: the second
  \<^verbatim>\<open>bind\<close> does not compile and does not switch the program, the two together compile
  at most once, and both return the same \<^verbatim>\<open>GLProgram\<close> with the same handle. The
  context identity is fixed: \<^verbatim>\<open>bind\<close> does not change \<^verbatim>\<open>renderer.CONTEXT_UID\<close>.
\<close>

theorem bind_shared_program:
  assumes s1: "shaders w s1 = Some sh1" and s2: "shaders w s2 = Some sh2"
    and same: "sh_program sh1 = sh_program sh2"
    and b1: "bind e s1 d1 w = (Inr r1, w1)" and b2: "bind e s2 d2 w1 = (Inr r2, w2)"
  shows "filter is_CompileProgram (new_calls w1 w2) = []
     \<and> filter is_UseProgram (new_calls w1 w2) = []
     \<and> length (filter is_CompileProgram (new_calls w w1 @ new_calls w1 w2)) \<le> 1
     \<and> r2 = r1
     \<and> map_option glp_program (glProgram_at w2 r2) = map_option glp_program (glProgram_at w1 r1)"
proof -
  from bind_program_resolves [OF b1 s1] obtain prog where
    pr: "programs w (sh_program sh1) = Some prog" by blast
  from b1 s1 pr show ?thesis
  proof (rule bind_successE)
    fix glp1 :: gl_program and cs1 :: "call list"
    assume r1: "r1 = (sh_program sh1, CONTEXT_UID (renderer w))"
      and at1: "glProgram_at w1 r1 = Some glp1"
      and tr1: "trace w1 = trace w
          @ (if glPrograms prog (CONTEXT_UID (renderer w)) = None
             then [CompileProgram (sh_program sh1) (CONTEXT_UID (renderer w))] else [])
          @ (if program (sys w) = Some (sh_program sh1) then [] else [UseProgram (glp_program glp1)])
          @ cs1"
      and cs1: "\<forall>c \<in> set cs1. is_sync_call c"
      and fr1: "shaders w1 = shaders w" "renderer w1 = renderer w"
        "program (sys w1) = Some (sh_program sh1)"
    from at1 r1 obtain prog1 where pr1: "programs w1 (sh_program sh2) = Some prog1"
      and slot: "glPrograms prog1 (CONTEXT_UID (renderer w1)) = Some glp1"
      using same fr1 by (auto simp: glProgram_at_def split: option.splits)
    have s2': "shaders w1 s2 = Some sh2" using s2 fr1 by simp
    have n1: "filter is_CompileProgram (new_calls w w1) =
      (if glPrograms prog (CONTEXT_UID (renderer w)) = None
             then [CompileProgram (sh_program sh1) (CONTEXT_UID (renderer w))] else [])"
      using sync_calls_no_CompileProgram [OF cs1] by (simp add: new_calls_append [OF tr1])
    from b2 s2' pr1 show ?thesis
    proof (rule bind_successE)
      fix glp2 :: gl_program and cs2 :: "call list"
      assume r2: "r2 = (sh_program sh2, CONTEXT_UID (renderer w1))"
        and at2: "glProgram_at w2 r2 = Some glp2"
        and tr2: "trace w2 = trace w1
          @ (if glPrograms prog1 (CONTEXT_UID (renderer w1)) = None
             then [CompileProgram (sh_program sh2) (CONTEXT_UID (renderer w1))] else [])
          @ (if program (sys w1) = Some (sh_program sh2) then [] else [UseProgram (glp_program glp2)])
          @ cs2"
        and cs2: "\<forall>c \<in> set cs2. is_sync_call c"
        and hd: "(case glPrograms prog1 (CONTEXT_UID (renderer w1)) of
           Some glp0 \<Rightarrow> glp_program glp2 = glp_program glp0
         | None \<Rightarrow> compileProgram e (gl (sys w1)) (vertexSrc prog1) (fragmentSrc prog1)
               (map (\<lambda>(i, a). (i, location a)) (attributeData prog1)) = Some (glp_program glp2))"
      have n2: "new_calls w1 w2 = cs2"
        using tr2 slot fr1 same by (simp add: new_calls_def)
      show ?thesis
        using n1 n2 sync_calls_no_CompileProgram [OF cs2] sync_calls_no_UseProgram [OF cs2]
          r1 r2 same fr1 at1 at2 hd slot by simp
    qed
  qed
qed

theorem bind_shared_program_witness:
  "filter is_CompileProgram (new_calls example_world bound_world) = [CompileProgram 10 1]
   \<and> filter is_CompileProgram (new_calls bound_world shared_bound_world) = []
   \<and> filter is_UseProgram (new_calls bound_world shared_bound_world) = []
   \<and> new_calls bound_world shared_bound_world
       = [GenerateUniformsSync ''uAlpha-globals'', SyncFunc 502 (10, 1) 21]"
proof -
  let ?s1 = "\<lparr>sh_program = 10, sh_uniformGroup = 20\<rparr>"
  let ?s2 = "\<lparr>sh_program = 10, sh_uniformGroup = 21\<rparr>"
  have s1: "shaders example_world 1 = Some ?s1" by (simp add: example_world_def)
  have s2: "shaders example_world 2 = Some ?s2" by (simp add: example_world_def)
  have same: "sh_program ?s1 = sh_program ?s2" by simp
  have b1: "bind example_env 1 False example_world = (Inr (10, 1), bound_world)"
    by (simp add: prod_eq_iff world_defs run_defs)
  have b2: "bind example_env 2 False bound_world = (Inr (10, 1), shared_bound_world)"
    by (simp add: prod_eq_iff world_defs run_defs)
  show ?thesis
    using bind_shared_program [OF s1 s2 same b1 b2]
    by (simp add: world_defs run_defs)
qed

section \<open>Binding after a context change\<close>

text \<open>
  C5. \<^verbatim>\<open>contextChange(gl)\<close> stores the context and resets the bound state; the context
  identity is \<^verbatim>\<open>renderer.CONTEXT_UID\<close>, which the renderer has set by then. The next
  \<^verbatim>\<open>bind\<close> of a shader (a shader object with its group and program) calls the compiler,
  once, exactly when the program has no \<^verbatim>\<open>GLProgram\<close> under the current identity, whether
  or not the \<^verbatim>\<open>bind\<close> then succeeds. Every \<^verbatim>\<open>GLProgram\<close> stored elsewhere, so under any
  other identity, stays as it is. When the \<^verbatim>\<open>bind\<close> returns, the handle it passes to
  \<^verbatim>\<open>gl.useProgram\<close> is that of the entry under the current identity or, when there was
  none, the one that \<^verbatim>\<open>compileProgram\<close> returned for the new context: never one taken
  from an entry under another identity.
\<close>

theorem contextChange_then_bind:
  assumes sh: "shaders w s = Some sh" and ug: "groups w (sh_uniformGroup sh) = Some ug"
    and pr: "programs w (sh_program sh) = Some prog"
    and run: "bind e s d (contextChange g w) = (res, w')"
  shows "filter is_CompileProgram (new_calls (contextChange g w) w')
       = (if glPrograms prog (CONTEXT_UID (renderer w)) = None
          then [CompileProgram (sh_program sh) (CONTEXT_UID (renderer w))] else [])
     \<and> (\<forall>r'. r' \<noteq> (sh_program sh, CONTEXT_UID (renderer w)) \<longrightarrow>
            glProgram_at w' r' = glProgram_at w r')
     \<and> (\<forall>r. res = Inr r \<longrightarrow>
           r = (sh_program sh, CONTEXT_UID (renderer w))
           \<and> (\<exists>glp. glProgram_at w' r = Some glp
                \<and> filter is_UseProgram (new_calls (contextChange g w) w') = [UseProgram (glp_program glp)]
                \<and> (case glPrograms prog (CONTEXT_UID (renderer w)) of
                      Some glp0 \<Rightarrow> glp_program glp = glp_program glp0
                    | None \<Rightarrow>
                        compileProgram e (Some g) (vertexSrc prog) (fragmentSrc prog)
                          (map (\<lambda>(i, a). (i, location a)) (attributeData prog))
                        = Some (glp_program glp))))"
proof -
  let ?w = "contextChange g w"
  note cf = contextChange_frame [of g w]
  have sh': "shaders ?w s = Some sh" and ug': "groups ?w (sh_uniformGroup sh) = Some ug"
    and pr': "programs ?w (sh_program sh) = Some prog"
    using cf sh ug pr by simp_all
  have any: "filter is_CompileProgram (new_calls ?w w')
       = (if glPrograms prog (CONTEXT_UID (renderer w)) = None
          then [CompileProgram (sh_program sh) (CONTEXT_UID (renderer w))] else [])
     \<and> (\<forall>r'. r' \<noteq> (sh_program sh, CONTEXT_UID (renderer w)) \<longrightarrow>
            glProgram_at w' r' = glProgram_at w r')"
    using bind_compile_any [OF sh' ug' pr' run] cf by (simp add: glProgram_at_def)
  have ok: "r = (sh_program sh, CONTEXT_UID (renderer w))
           \<and> (\<exists>glp. glProgram_at w' r = Some glp
                \<and> filter is_UseProgram (new_calls ?w w') = [UseProgram (glp_program glp)]
                \<and> (case glPrograms prog (CONTEXT_UID (renderer w)) of
                      Some glp0 \<Rightarrow> glp_program glp = glp_program glp0
                    | None \<Rightarrow>
                        compileProgram e (Some g) (vertexSrc prog) (fragmentSrc prog)
                          (map (\<lambda>(i, a). (i, location a)) (attributeData prog))
                        = Some (glp_program glp)))"
    if res: "res = Inr r" for r
  proof -
    have run': "bind e s d ?w = (Inr r, w')" using run res by simp
    from run' sh' pr' show ?thesis
    proof (rule bind_successE)
      fix glp' :: gl_program and cs :: "call list"
      assume r: "r = (sh_program sh, CONTEXT_UID (renderer ?w))"
        and at: "glProgram_at w' r = Some glp'"
        and tr: "trace w' = trace ?w
          @ (if glPrograms prog (CONTEXT_UID (renderer ?w)) = None
             then [CompileProgram (sh_program sh) (CONTEXT_UID (renderer ?w))] else [])
          @ (if program (sys ?w) = Some (sh_program sh) then [] else [UseProgram (glp_program glp')])
          @ cs"
        and cs: "\<forall>c \<in> set cs. is_sync_call c"
        and hd: "(case glPrograms prog (CONTEXT_UID (renderer ?w)) of
           Some glp0 \<Rightarrow> glp_program glp' = glp_program glp0
         | None \<Rightarrow>
             compileProgram e (gl (sys ?w)) (vertexSrc prog) (fragmentSrc prog)
               (map (\<lambda>(i, a). (i, location a)) (attributeData prog)) = Some (glp_program glp'))"
      have use: "filter is_UseProgram (new_calls ?w w') = [UseProgram (glp_program glp')]"
        using sync_calls_no_UseProgram [OF cs] cf by (simp add: new_calls_append [OF tr])
      show ?thesis
        using r at use hd cf
        by (intro conjI exI [of _ glp']) (simp_all split: option.splits)
    qed
  qed
  show ?thesis using any ok by blast
qed

theorem contextChange_then_bind_witness:
  "fst (bind example_env 1 False (contextChange 8 new_context_world)) = Inr (10, 2)
   \<and> filter is_CompileProgram
        (new_calls (contextChange 8 new_context_world)
           (snd (bind example_env 1 False (contextChange 8 new_context_world))))
       = [CompileProgram 10 2]
   \<and> glProgram_at (snd (bind example_env 1 False (contextChange 8 new_context_world))) (10, 1)
       = glProgram_at new_context_world (10, 1)
   \<and> glProgram_at new_context_world (10, 1) \<noteq> None
   \<and> glProgram_at new_context_world (10, 2) = None"
proof -
  let ?w = new_context_world
  let ?sh = "\<lparr>sh_program = 10, sh_uniformGroup = 20\<rparr>"
  have sh: "shaders ?w 1 = Some ?sh" by (simp add: world_defs run_defs)
  have ug: "groups ?w (sh_uniformGroup ?sh) = Some (the (groups ?w 20))"
    by (simp add: world_defs run_defs)
  have pr: "programs ?w (sh_program ?sh) = Some (the (programs ?w 10))"
    by (simp add: world_defs run_defs)
  show ?thesis
    using contextChange_then_bind [where e = example_env and d = False and g = 8,
        OF sh ug pr surjective_pairing]
    by (simp add: world_defs run_defs)
qed

section \<open>Uploading with no shader bound\<close>

text \<open>
  C6, as the code has it. With no shader bound, \<^verbatim>\<open>setUniforms\<close> uploads nothing and
  changes nothing, but it is not silent: \<^verbatim>\<open>this.shader.program\<close> on the null shader
  throws a \<^verbatim>\<open>TypeError\<close>.
\<close>

theorem setUniforms_unbound:
  assumes "shader (sys w) = None"
  shows "setUniforms us w = (Inl TypeError, w)"
  using assms by (simp add: setUniforms_def shader_program_of_def)

theorem setUniforms_unbound_witness:
  "shader (sys example_world) = None
   \<and> setUniforms [(''uColor'', UData [0, 0, 0, 1])] example_world = (Inl TypeError, example_world)"
proof -
  have h: "shader (sys example_world) = None" by (simp add: example_world_def)
  show ?thesis using h setUniforms_unbound [OF h] by simp
qed

theorem setUniforms_unbound_counterexample:
  "shader (sys example_world) = None
   \<and> fst (setUniforms [(''uColor'', UData [0, 0, 0, 1])] example_world) = Inl TypeError
   \<and> fst (setUniforms [(''uColor'', UData [0, 0, 0, 1])] example_world) \<noteq> Inr ()"
  by (simp add: example_world_def setUniforms_def shader_program_of_def)

section \<open>Where a generated routine is stored\<close>

text \<open>
  C7, as the code has it. On a miss in \<^verbatim>\<open>this.cache\<close>, \<^verbatim>\<open>createSyncGroups\<close> calls
  \<^verbatim>\<open>generateUniformsSync\<close> and stores the routine in \<^verbatim>\<open>this.cache\<close> under the signature
  and in the group, in \<^verbatim>\<open>group.syncUniforms\<close> under the \<^verbatim>\<open>id\<close> of the bound shader's
  program; no program and no \<^verbatim>\<open>GLProgram\<close> is changed. A later \<^verbatim>\<open>syncUniforms\<close> of the
  same group with the same program bound runs that routine whatever \<^verbatim>\<open>this.cache\<close> holds,
  and does nothing else: the cache is not read, no signature is computed, nothing is
  generated.
\<close>

theorem createSyncGroups_stores_routine:
  assumes g: "groups w g = Some grp" and sp: "shader_program_of w = Some (p, prog)"
    and miss: "cache (sys w) (getSignature grp (uniformData prog)) = None"
    and run: "createSyncGroups e g w = (res, w1)"
  shows "res = Inr (generateUniformsSync e grp (uniformData prog))
     \<and> new_calls w w1 = [GenerateUniformsSync (getSignature grp (uniformData prog))]
     \<and> cache (sys w1) (getSignature grp (uniformData prog))
         = Some (generateUniformsSync e grp (uniformData prog))
     \<and> map_option (\<lambda>grp'. group_syncUniforms grp' (prog_id prog)) (groups w1 g)
         = Some (Some (generateUniformsSync e grp (uniformData prog)))
     \<and> programs w1 = programs w
     \<and> (\<forall>c r. syncUniforms e g (Some r) (w1\<lparr>sys := (sys w1)\<lparr>cache := c\<rparr>\<rparr>)
           = (Inr (), log_call (SyncFunc (generateUniformsSync e grp (uniformData prog)) r g)
                        (w1\<lparr>sys := (sys w1)\<lparr>cache := c\<rparr>\<rparr>)))"
proof -
  let ?f = "generateUniformsSync e grp (uniformData prog)"
  let ?sid = "getSignature grp (uniformData prog)"
  let ?grp' = "grp\<lparr>group_syncUniforms := (group_syncUniforms grp)(prog_id prog \<mapsto> ?f)\<rparr>"
  from createSyncGroups_miss [OF g sp miss, of e] run
  have res: "res = Inr ?f"
    and w1: "w1 = w\<lparr>trace := trace w @ [GenerateUniformsSync ?sid],
         sys := (sys w)\<lparr>cache := (cache (sys w))(?sid \<mapsto> ?f)\<rparr>,
         groups := (groups w)(g \<mapsto> ?grp')\<rparr>"
    by simp_all
  have again: "syncUniforms e g (Some r) (w1\<lparr>sys := (sys w1)\<lparr>cache := c\<rparr>\<rparr>)
           = (Inr (), log_call (SyncFunc ?f r g) (w1\<lparr>sys := (sys w1)\<lparr>cache := c\<rparr>\<rparr>))" for c r
  proof -
    let ?w = "w1\<lparr>sys := (sys w1)\<lparr>cache := c\<rparr>\<rparr>"
    have g': "groups ?w g = Some ?grp'" by (simp add: w1)
    have sp': "shader_program_of ?w = Some (p, prog)"
      using sp shader_program_of_cong [of ?w w] by (simp add: w1)
    have hit: "group_syncUniforms ?grp' (prog_id prog) = Some ?f" by simp
    show ?thesis
      using syncUniforms_local_hit [OF g' sp' hit, of e r] by (simp add: log_call_def)
  qed
  show ?thesis
    using res again by (simp add: w1 new_calls_def)
qed

theorem createSyncGroups_stores_routine_witness:
  "fst (createSyncGroups example_env 20 bound_nosync_world) = Inr 502
   \<and> new_calls bound_nosync_world (snd (createSyncGroups example_env 20 bound_nosync_world))
       = [GenerateUniformsSync ''uColor-vec4-globals'']
   \<and> cache (sys (snd (createSyncGroups example_env 20 bound_nosync_world))) ''uColor-vec4-globals''
       = Some 502
   \<and> group_routine (snd (createSyncGroups example_env 20 bound_nosync_world)) 20 10 = Some 502"
proof -
  let ?w = bound_nosync_world
  have g: "groups ?w 20 = Some (the (groups ?w 20))" by (simp add: world_defs run_defs)
  have sp: "shader_program_of ?w = Some (10, the (programs ?w 10))"
    by (simp add: world_defs run_defs)
  have miss: "cache (sys ?w) (getSignature (the (groups ?w 20)) (uniformData (the (programs ?w 10))))
      = None"
    by (simp add: world_defs run_defs)
  show ?thesis
    using createSyncGroups_stores_routine [OF g sp miss surjective_pairing, of example_env]
    by (simp add: world_defs run_defs)
qed

text \<open>
  Shader 1 is bound and compiled, its group 20 not yet synchronised. The routine generated
  on the miss goes into \<^verbatim>\<open>group.syncUniforms\<close> of group 20 under the program's id 10;
  the programs, and with them the \<^verbatim>\<open>GLProgram\<close> of program 10, are what they were.
\<close>

theorem createSyncGroups_stores_routine_counterexample:
  "fst (createSyncGroups example_env 20 bound_nosync_world) = Inr 502
   \<and> new_calls bound_nosync_world (snd (createSyncGroups example_env 20 bound_nosync_world))
       = [GenerateUniformsSync ''uColor-vec4-globals'']
   \<and> programs (snd (createSyncGroups example_env 20 bound_nosync_world)) = programs bound_nosync_world
   \<and> glProgram_at (snd (createSyncGroups example_env 20 bound_nosync_world)) (10, 1)
       = glProgram_at bound_nosync_world (10, 1)
   \<and> glProgram_at bound_nosync_world (10, 1) \<noteq> None
   \<and> group_routine bound_nosync_world 20 10 = None
   \<and> group_routine (snd (createSyncGroups example_env 20 bound_nosync_world)) 20 10 = Some 502"
  by (simp add: world_defs run_defs)

text \<open>
  C10. Signatures are not injective on shapes: names and type tags are joined with
  \<^verbatim>\<open>-\<close> unescaped, so the one-member group \<^verbatim>\<open>{"a-float"}\<close> (no introspected type) and
  the one-member group \<^verbatim>\<open>{a}\<close> (introspected type \<^verbatim>\<open>float\<close>) both get the
  signature \<^verbatim>\<open>a-float\<close>.
\<close>

theorem getSignature_collision:
  "\<exists>g1 g2 ud. map fst (uniforms g1) \<noteq> map fst (uniforms g2)
     \<and> getSignature g1 ud = getSignature g2 ud
     \<and> getSignature g1 ud = ''a-float''"
proof (intro exI conjI)
  let ?g1 = "\<lparr>uniforms = [(''a-float'', UData [1])], static = False, dirtyId = 0,
              group_id = 1, group_syncUniforms = Map.empty\<rparr>"
  let ?g2 = "\<lparr>uniforms = [(''a'', UData [1])], static = False, dirtyId = 0,
              group_id = 2, group_syncUniforms = Map.empty\<rparr>"
  let ?ud = "[(''a'', \<lparr>utype = ''float'', usize = 1\<rparr>)]"
  show "map fst (uniforms ?g1) \<noteq> map fst (uniforms ?g2)" by simp
  show "getSignature ?g1 ?ud = getSignature ?g2 ?ud" by (simp add: getSignature_def)
  show "getSignature ?g1 ?ud = ''a-float''" by (simp add: getSignature_def)
qed

section \<open>Construction and reset\<close>

text \<open>
  C8. When \<^verbatim>\<open>unsafeEvalSupported()\<close> is false the constructor throws: it returns the
  error and no instance, whatever the other helpers are; when it is true an instance is
  returned.
\<close>

theorem ShaderSystem_unsupported:
  "ShaderSystem (e\<lparr>unsafeEvalSupported := False\<rparr>) UID = Inl EnvironmentError
   \<and> systemCheck (e\<lparr>unsafeEvalSupported := False\<rparr>) = Inl EnvironmentError
   \<and> isl (ShaderSystem e UID) = (\<not> unsafeEvalSupported e)"
  by (simp add: ShaderSystem_def systemCheck_def)

text \<open>
  C9. \<^verbatim>\<open>reset\<close> unsets the bound shader and the bound program and changes nothing
  else: the signature-keyed cache, every program with its per-context \<^verbatim>\<open>GLProgram\<close>
  map, the groups, the shaders, the renderer, the context and the trace are the same.
\<close>

theorem reset_frame:
  "shader (sys (reset w)) = None
   \<and> program (sys (reset w)) = None
   \<and> cache (sys (reset w)) = cache (sys w)
   \<and> programs (reset w) = programs w
   \<and> sys (reset w) = (sys w)\<lparr>shader := None, program := None\<rparr>
   \<and> reset w = w\<lparr>sys := sys (reset w)\<rparr>"
  by (simp add: reset_def)

end
